theory Spec2Isabelle
  imports Complex_Main
begin

section \<open>Strings of the scraper\<close>

text \<open>
  A JavaScript string is a sequence of UTF-16 code units. A code unit is modelled as a
  natural number (every real code unit is below 65536), so \<open>length\<close> is the
  \<open>.length\<close> of the source and every symbol the scrapers look for (the five currency
  signs, the star glyphs) is one element. \<open>ascii\<close> turns a literal of ASCII characters
  into such a string.
\<close>

type_synonym code_unit = nat
type_synonym jsstring = "code_unit list"

definition ascii :: "string \<Rightarrow> jsstring" where
  "ascii s = map of_char s"

text \<open>The code units the parsers name.\<close>

abbreviation (input) DOLLAR :: code_unit where "DOLLAR \<equiv> 36"      \<comment> \<open>\<open>$\<close>\<close>
abbreviation (input) PERCENT :: code_unit where "PERCENT \<equiv> 37"
abbreviation (input) ASTERISK :: code_unit where "ASTERISK \<equiv> 42"
abbreviation (input) COMMA :: code_unit where "COMMA \<equiv> 44"
abbreviation (input) HYPHEN :: code_unit where "HYPHEN \<equiv> 45"
abbreviation (input) DOT :: code_unit where "DOT \<equiv> 46"
abbreviation (input) POUND :: code_unit where "POUND \<equiv> 163"     \<comment> \<open>U+00A3\<close>
abbreviation (input) YEN :: code_unit where "YEN \<equiv> 165"         \<comment> \<open>U+00A5\<close>
abbreviation (input) EURO :: code_unit where "EURO \<equiv> 8364"      \<comment> \<open>U+20AC\<close>
abbreviation (input) RUPEE :: code_unit where "RUPEE \<equiv> 8377"    \<comment> \<open>U+20B9\<close>
abbreviation (input) STAR_FULL :: code_unit where "STAR_FULL \<equiv> 9733"    \<comment> \<open>U+2605\<close>
abbreviation (input) STAR_EMPTY :: code_unit where "STAR_EMPTY \<equiv> 9734"  \<comment> \<open>U+2606\<close>

definition is_digit :: "code_unit \<Rightarrow> bool" where
  \<comment> \<open>the class \<open>[0-9]\<close>, also \<open>\d\<close>\<close>
  "is_digit c \<longleftrightarrow> 48 \<le> c \<and> c \<le> 57"

definition is_amount_unit :: "code_unit \<Rightarrow> bool" where
  \<comment> \<open>the class \<open>[0-9,]\<close>\<close>
  "is_amount_unit c \<longleftrightarrow> is_digit c \<or> c = COMMA"

definition is_currency_symbol :: "code_unit \<Rightarrow> bool" where
  \<comment> \<open>the class of the five currency signs in the price patterns\<close>
  "is_currency_symbol c \<longleftrightarrow> c = RUPEE \<or> c = DOLLAR \<or> c = EURO \<or> c = POUND \<or> c = YEN"

definition is_space :: "code_unit \<Rightarrow> bool" where
  \<comment> \<open>ECMAScript WhiteSpace and LineTerminator: what \<open>\s\<close> matches and \<open>trim\<close> strips\<close>
  "is_space c \<longleftrightarrow>
     (9 \<le> c \<and> c \<le> 13) \<or> c = 32 \<or> c = 160 \<or> c = 5760 \<or> (8192 \<le> c \<and> c \<le> 8202) \<or>
     c = 8232 \<or> c = 8233 \<or> c = 8239 \<or> c = 8287 \<or> c = 12288 \<or> c = 65279"

definition is_line_terminator :: "code_unit \<Rightarrow> bool" where
  \<comment> \<open>the code units the pattern \<open>.\<close> does not match\<close>
  "is_line_terminator c \<longleftrightarrow> c = 10 \<or> c = 13 \<or> c = 8232 \<or> c = 8233"

definition trim :: "jsstring \<Rightarrow> jsstring" where
  "trim s = rev (dropWhile is_space (rev (dropWhile is_space s)))"

definition includes_js :: "jsstring \<Rightarrow> jsstring \<Rightarrow> bool" where
  \<comment> \<open>\<open>s.includes(p)\<close>: \<open>p\<close> occurs in \<open>s\<close> as a contiguous run\<close>
  "includes_js s p = list_ex (\<lambda>k. take (length p) (drop k s) = p) [0 ..< Suc (length s)]"

section \<open>Numbers\<close>

text \<open>
  A JavaScript number is an IEEE 754 binary64 value. A finite one is carried as the
  rational it denotes; \<open>fl\<close> rounds a rational to the nearest binary64 value, ties to
  even, with gradual underflow and overflow to infinity, so that every arithmetic
  operation below is the exact operation followed by \<open>fl\<close>. The sign of zero is not
  carried: no operation of the parsers tells the two zeros apart on values they compute
  (every divisor is guarded or a positive constant).
\<close>

datatype jsnum = NaN | Fin rat | PosInf | NegInf

function bit_length :: "int \<Rightarrow> int" where
  \<comment> \<open>the number of binary digits of a positive integer\<close>
  "bit_length n = (if n \<le> 0 then 0 else 1 + bit_length (n div 2))"
  by pat_completeness auto
termination
  by (relation "measure nat") auto

declare bit_length.simps [simp del]

definition pow2 :: "int \<Rightarrow> rat" where
  "pow2 k = (if 0 \<le> k then 2 ^ nat k else 1 / 2 ^ nat (- k))"

definition round_half_even :: "rat \<Rightarrow> int" where
  "round_half_even x =
     (let f = \<lfloor>x\<rfloor>; d = x - of_int f
      in if d < 1 / 2 then f else if 1 / 2 < d then f + 1 else if even f then f else f + 1)"

definition fl :: "rat \<Rightarrow> jsnum" where
  "fl q =
     (if q = 0 then Fin 0
      else
        let a = \<bar>q\<bar>;
            nd = quotient_of a;
            e0 = bit_length (fst nd) - bit_length (snd nd);
            e = (if pow2 e0 \<le> a then e0 else e0 - 1);
            e' = max e (- 1022);
            u = pow2 (e' - 52);
            m = round_half_even (a / u)
        in if 1023 < e \<or> (e = 1023 \<and> 2 ^ 53 \<le> m)
           then (if 0 < q then PosInf else NegInf)
           else Fin (if 0 < q then of_int m * u else - (of_int m * u)))"

fun js_gt :: "jsnum \<Rightarrow> jsnum \<Rightarrow> bool" where
  \<comment> \<open>\<open>x > y\<close>; false as soon as one side is NaN\<close>
  "js_gt NaN _ = False"
| "js_gt _ NaN = False"
| "js_gt (Fin a) (Fin b) = (b < a)"
| "js_gt PosInf PosInf = False"
| "js_gt PosInf _ = True"
| "js_gt NegInf _ = False"
| "js_gt (Fin a) PosInf = False"
| "js_gt (Fin a) NegInf = True"

fun js_neg :: "jsnum \<Rightarrow> jsnum" where
  "js_neg NaN = NaN"
| "js_neg (Fin a) = Fin (- a)"
| "js_neg PosInf = NegInf"
| "js_neg NegInf = PosInf"

fun js_add :: "jsnum \<Rightarrow> jsnum \<Rightarrow> jsnum" where
  "js_add NaN _ = NaN"
| "js_add _ NaN = NaN"
| "js_add (Fin a) (Fin b) = fl (a + b)"
| "js_add PosInf NegInf = NaN"
| "js_add NegInf PosInf = NaN"
| "js_add PosInf _ = PosInf"
| "js_add NegInf _ = NegInf"
| "js_add (Fin a) y = y"

definition js_sub :: "jsnum \<Rightarrow> jsnum \<Rightarrow> jsnum" where
  "js_sub x y = js_add x (js_neg y)"

fun js_sign :: "jsnum \<Rightarrow> int" where
  "js_sign NaN = 0"
| "js_sign (Fin a) = (if 0 < a then 1 else if a < 0 then - 1 else 0)"
| "js_sign PosInf = 1"
| "js_sign NegInf = - 1"

fun js_mul :: "jsnum \<Rightarrow> jsnum \<Rightarrow> jsnum" where
  "js_mul NaN _ = NaN"
| "js_mul _ NaN = NaN"
| "js_mul (Fin a) (Fin b) = fl (a * b)"
| "js_mul x y =
     (let s = js_sign x * js_sign y
      in if s = 0 then NaN else if 0 < s then PosInf else NegInf)"

fun js_div :: "jsnum \<Rightarrow> jsnum \<Rightarrow> jsnum" where
  "js_div NaN _ = NaN"
| "js_div _ NaN = NaN"
| "js_div (Fin a) (Fin b) =
     (if b = 0 then (if a = 0 then NaN else if 0 < a then PosInf else NegInf)
      else fl (a / b))"
| "js_div (Fin a) _ = Fin 0"
| "js_div x (Fin b) = (if (0 \<le> b) = (x = PosInf) then PosInf else NegInf)"
| "js_div _ _ = NaN"

fun Math_round :: "jsnum \<Rightarrow> jsnum" where
  \<comment> \<open>\<open>Math.round\<close>: the integer nearest to the argument, a tie going up\<close>
  "Math_round (Fin a) = Fin (of_int \<lfloor>a + 1 / 2\<rfloor>)"
| "Math_round x = x"

definition digit_val :: "code_unit \<Rightarrow> nat" where
  "digit_val c = c - 48"

definition digits_val :: "jsstring \<Rightarrow> nat" where
  "digits_val ds = foldl (\<lambda>n c. 10 * n + digit_val c) 0 ds"

definition parseFloat :: "jsstring \<Rightarrow> jsnum" where
  \<comment> \<open>\<open>parseFloat\<close> on the strings the parsers pass it, which hold digits and at most
      one dot: the longest prefix \<open>digits\<close>, \<open>digits.digits\<close> or \<open>.digits\<close> is read as a
      decimal and rounded; with no digit at all the result is NaN. Signs, exponents
      and leading blanks never reach it.\<close>
  "parseFloat s =
     (let ip = takeWhile is_digit s;
          r = dropWhile is_digit s;
          fp = (case r of [] \<Rightarrow> [] | d # r' \<Rightarrow> if d = DOT then takeWhile is_digit r' else [])
      in if ip = [] \<and> fp = [] then NaN
         else fl (of_nat (digits_val (ip @ fp)) / 10 ^ length fp))"

definition parseInt :: "jsstring \<Rightarrow> jsnum" where
  \<comment> \<open>\<open>parseInt\<close> on a string that starts with a digit: the leading digits, in base 10\<close>
  "parseInt s =
     (let ip = takeWhile is_digit s
      in if ip = [] then NaN else fl (of_nat (digits_val ip)))"

section \<open>The price normalizer\<close>

text \<open>
  The patterns of \<open>parsePrice\<close> are matched as the backtracking matcher of JavaScript
  does: the leftmost start position that admits a match wins, and at that position a
  greedy quantifier takes the longest run that lets the rest of the pattern succeed.

  \<open>amount_at\<close> is \<open>([0-9,]+(\.[0-9]{2})?)\<close> anchored at the head of the string: the
  longest run of \<open>[0-9,]\<close>, then a dot and two digits when they follow. What follows the
  run is not in \<open>[0-9,]\<close>, so a shorter run can only be followed by the empty alternative of
  the optional group, and the matcher tries the longest run first.
\<close>

definition amount_at :: "jsstring \<Rightarrow> (jsstring \<times> jsstring) option" where
  "amount_at s =
     (let run = takeWhile is_amount_unit s; rest = dropWhile is_amount_unit s
      in if run = [] then None
         else (case rest of
                 d # d1 # d2 # rest' \<Rightarrow>
                   if d = DOT \<and> is_digit d1 \<and> is_digit d2 then Some (run @ [d, d1, d2], rest')
                   else Some (run, rest)
               | _ \<Rightarrow> Some (run, rest)))"

text \<open>
  \<open>token_at\<close> is \<open>([\<dots>])\s*([0-9,]+(\.[0-9]{2})?)\<close> anchored at the head: a currency
  sign, all the blanks after it (a blank is not in \<open>[0-9,]\<close>, so giving one back never
  helps), then an amount. The result is the sign, the amount and the unread rest.
\<close>

fun token_at :: "jsstring \<Rightarrow> (code_unit \<times> jsstring \<times> jsstring) option" where
  "token_at [] = None"
| "token_at (c # s) =
     (if is_currency_symbol c
      then (case amount_at (dropWhile is_space s) of
              None \<Rightarrow> None
            | Some (a, rest) \<Rightarrow> Some (c, a, rest))
      else None)"

fun priceMatch :: "jsstring \<Rightarrow> (code_unit \<times> jsstring) option" where
  \<comment> \<open>\<open>cleanText.match(/([\<dots>])\s*([0-9,]+(\.[0-9]{2})?)/)\<close>: groups 1 and 2\<close>
  "priceMatch [] = None"
| "priceMatch (c # s) =
     (case token_at (c # s) of
        Some (sg, a, rest) \<Rightarrow> Some (sg, a)
      | None \<Rightarrow> priceMatch s)"

fun numericMatch :: "jsstring \<Rightarrow> jsstring option" where
  \<comment> \<open>\<open>cleanText.match(/([0-9,]+(\.[0-9]{2})?)/)\<close>: group 1\<close>
  "numericMatch [] = None"
| "numericMatch (c # s) =
     (case amount_at (c # s) of
        Some (a, rest) \<Rightarrow> Some a
      | None \<Rightarrow> numericMatch s)"

text \<open>
  \<open>second_token\<close> is the tail \<open>.*([\<dots>])\s*([0-9,]+(\.[0-9]{2})?)\<close> of the pair pattern:
  \<open>.*\<close> is greedy and stops before a line terminator, so the token taken is the last one
  that starts on the current line.
\<close>

fun second_token :: "jsstring \<Rightarrow> (code_unit \<times> jsstring) option" where
  "second_token [] = None"
| "second_token (c # s) =
     (if is_line_terminator c then None
      else (case second_token s of
              Some r \<Rightarrow> Some r
            | None \<Rightarrow> (case token_at (c # s) of
                         Some (sg, a, rest) \<Rightarrow> Some (sg, a)
                       | None \<Rightarrow> None)))"

text \<open>
  \<open>originalMatch\<close> is the pair pattern: groups 1, 2, 4 and 5 of the leftmost match. At a
  start position the first amount is the greedy one: what a shorter first amount leaves
  unread is made of digits, commas and dots, which \<open>.*\<close> swallows and where no token
  starts, so the tail succeeds after a shorter amount exactly when it succeeds after the
  greedy one.
\<close>

fun originalMatch :: "jsstring \<Rightarrow> (code_unit \<times> jsstring \<times> code_unit \<times> jsstring) option" where
  "originalMatch [] = None"
| "originalMatch (c # s) =
     (case token_at (c # s) of
        None \<Rightarrow> originalMatch s
      | Some (s1, a1, rest) \<Rightarrow>
          (case second_token rest of
             None \<Rightarrow> originalMatch s
           | Some (s2, a2) \<Rightarrow> Some (s1, a1, s2, a2)))"

definition remove_commas :: "jsstring \<Rightarrow> jsstring" where
  \<comment> \<open>\<open>.replace(/,/g, '')\<close>\<close>
  "remove_commas s = filter (\<lambda>c. c \<noteq> COMMA) s"

definition currencyMap :: "(code_unit \<times> string) list" where
  "currencyMap =
     [(DOLLAR, ''USD''), (EURO, ''EUR''), (POUND, ''GBP''), (YEN, ''JPY''), (RUPEE, ''INR''),
      (8381, ''RUB''), (8361, ''KRW''), (8363, ''VND''), (3647, ''THB''), (8372, ''UAH''),
      (8378, ''TRY'')]"

definition getCurrencyCode :: "code_unit \<Rightarrow> jsstring" where
  \<comment> \<open>called with the one-unit string of group 1\<close>
  "getCurrencyCode symbol =
     (case map_of currencyMap symbol of
        Some code \<Rightarrow> ascii code
      | None \<Rightarrow> ascii ''USD'')"

definition or_else :: "jsstring option \<Rightarrow> jsstring \<Rightarrow> jsstring" where
  \<comment> \<open>\<open>currencySymbol || d\<close>: an absent or empty hint is falsy\<close>
  "or_else h d = (case h of None \<Rightarrow> d | Some s \<Rightarrow> if s = [] then d else s)"

record price =
  amount :: jsnum
  currency :: jsstring
  formatted :: jsstring
  discounted :: bool
  originalAmount :: "jsnum option"
  originalFormatted :: "jsstring option"
  discountPercentage :: "jsnum option"

definition hasDiscount :: "jsstring \<Rightarrow> bool" where
  "hasDiscount cleanText \<longleftrightarrow>
     DOLLAR \<in> set cleanText \<and> 1 < length (filter (\<lambda>c. c = DOLLAR) cleanText)"

definition current_price :: "jsstring \<Rightarrow> jsstring option \<Rightarrow> price" where
  \<comment> \<open>the record after "Extract the current price", before the discount is looked at\<close>
  "current_price cleanText currencySymbol =
     (case priceMatch cleanText of
        Some (sg, a) \<Rightarrow>
          \<lparr>amount = parseFloat (remove_commas a), currency = getCurrencyCode sg,
           formatted = sg # a, discounted = hasDiscount cleanText,
           originalAmount = None, originalFormatted = None, discountPercentage = None\<rparr>
      | None \<Rightarrow>
          (case numericMatch cleanText of
             Some a \<Rightarrow>
               \<lparr>amount = parseFloat (remove_commas a),
                currency = or_else currencySymbol (ascii ''USD''),
                formatted = or_else currencySymbol (ascii ''$'') @ a,
                discounted = hasDiscount cleanText,
                originalAmount = None, originalFormatted = None, discountPercentage = None\<rparr>
           | None \<Rightarrow>
               \<lparr>amount = Fin 0, currency = or_else currencySymbol (ascii ''USD''),
                formatted = cleanText, discounted = hasDiscount cleanText,
                originalAmount = None, originalFormatted = None, discountPercentage = None\<rparr>))"

definition discount_percentage :: "jsnum \<Rightarrow> jsnum \<Rightarrow> jsnum option" where
  "discount_percentage orig cur =
     (if js_gt orig (Fin 0)
      then Some (Math_round (js_mul (js_div (js_sub orig cur) orig) (Fin 100)))
      else None)"

definition parsePrice :: "jsstring \<Rightarrow> jsstring option \<Rightarrow> price" where
  \<comment> \<open>On a string no step of the \<open>try\<close> block throws, so the \<open>catch\<close> branch is not a
      branch of the model.\<close>
  "parsePrice priceText currencySymbol =
     (if priceText = [] then
        \<lparr>amount = Fin 0, currency = or_else currencySymbol (ascii ''USD''),
         formatted = ascii ''$0.00'', discounted = False,
         originalAmount = None, originalFormatted = None, discountPercentage = None\<rparr>
      else
        let cleanText = trim priceText;
            p = current_price cleanText currencySymbol
        in if hasDiscount cleanText then
             (case originalMatch cleanText of
                None \<Rightarrow> p
              | Some (s1, a1, s2, a2) \<Rightarrow>
                  let price1 = parseFloat (remove_commas a1);
                      price2 = parseFloat (remove_commas a2)
                  in if js_gt price1 price2 then
                       p\<lparr>originalAmount := Some price1, originalFormatted := Some (s1 # a1),
                         amount := price2, formatted := s2 # a2,
                         discountPercentage := discount_percentage price1 price2\<rparr>
                     else
                       p\<lparr>originalAmount := Some price2, originalFormatted := Some (s2 # a2),
                         amount := price1, formatted := s1 # a1,
                         discountPercentage := discount_percentage price2 price1\<rparr>)
           else p)"

section \<open>The rating normalizer\<close>

text \<open>
  \<open>ratingMatch\<close> is \<open>ratingText.match(/([0-9]\.[0-9]|[0-5])/)\<close>: at the leftmost position
  where one of the alternatives matches, the first alternative (digit, dot, digit) is
  preferred to the second (one digit from 0 to 5).
\<close>

definition is_digit_0_5 :: "code_unit \<Rightarrow> bool" where
  \<comment> \<open>the class \<open>[0-5]\<close>\<close>
  "is_digit_0_5 c \<longleftrightarrow> 48 \<le> c \<and> c \<le> 53"

definition dot_digit_at :: "jsstring \<Rightarrow> bool" where
  \<comment> \<open>\<open>\.[0-9]\<close> anchored at the head\<close>
  "dot_digit_at s = (case s of d # e # rest \<Rightarrow> d = DOT \<and> is_digit e | _ \<Rightarrow> False)"

fun ratingMatch :: "jsstring \<Rightarrow> jsstring option" where
  "ratingMatch [] = None"
| "ratingMatch (c # s) =
     (if is_digit c \<and> dot_digit_at s then Some (c # take 2 s)
      else if is_digit_0_5 c then Some [c]
      else ratingMatch s)"

definition count_unit :: "code_unit \<Rightarrow> jsstring \<Rightarrow> nat" where
  \<comment> \<open>\<open>(ratingText.match(/c/g) || []).length\<close> for a one-unit pattern\<close>
  "count_unit c s = length (filter (\<lambda>x. x = c) s)"

fun percentMatch :: "jsstring \<Rightarrow> jsstring option" where
  \<comment> \<open>\<open>ratingText.match(/([0-9]+)%/)\<close>: group 1. The run of digits is the longest one, since
      a shorter run is followed by a digit and not by the percent sign.\<close>
  "percentMatch [] = None"
| "percentMatch (c # s) =
     (let run = takeWhile is_digit (c # s); rest = dropWhile is_digit (c # s)
      in if run \<noteq> [] \<and> (case rest of [] \<Rightarrow> False | p # rest' \<Rightarrow> p = PERCENT) then Some run
         else percentMatch s)"

definition js_of_nat :: "nat \<Rightarrow> jsnum" where
  \<comment> \<open>the number a count is; exact below \<open>2^53\<close>, far above the length of any string\<close>
  "js_of_nat n = fl (of_nat n)"

definition parseRating :: "jsstring \<Rightarrow> jsnum" where
  \<comment> \<open>On a string no step of the \<open>try\<close> block throws.\<close>
  "parseRating ratingText =
     (case ratingMatch ratingText of
        Some m \<Rightarrow> parseFloat m
      | None \<Rightarrow>
          let fullStars = count_unit STAR_FULL ratingText + count_unit ASTERISK ratingText;
              emptyStars = count_unit STAR_EMPTY ratingText + count_unit HYPHEN ratingText
          in if 0 < fullStars \<or> 0 < emptyStars then
               js_mul (js_div (js_of_nat fullStars) (js_of_nat (fullStars + emptyStars))) (Fin 5)
             else
               (case percentMatch ratingText of
                  Some ds \<Rightarrow>
                    js_div (Math_round (js_mul (js_div (parseInt ds) (Fin 20)) (Fin 100))) (Fin 100)
                | None \<Rightarrow> Fin 0))"

text \<open>
  The numeric rule as the specification words it, \<open>/[0-5](\.[0-9])?/\<close>: a digit from 0 to
  5, with a dot and a digit when they follow. It is here to be compared with
  \<open>ratingMatch\<close>.
\<close>

fun spec_ratingMatch :: "jsstring \<Rightarrow> jsstring option" where
  "spec_ratingMatch [] = None"
| "spec_ratingMatch (c # s) =
     (if is_digit_0_5 c then (if dot_digit_at s then Some (c # take 2 s) else Some [c])
      else spec_ratingMatch s)"

section \<open>The stock normalizer\<close>

text \<open>
  \<open>toLowerCase\<close> maps the letters A to Z to a to z. What it does to a string that holds
  a code unit outside ASCII is the host's Unicode case mapping, which is not part of the
  repository: it is the parameter \<open>unicode_lower\<close>.
\<close>

definition ascii_lower :: "code_unit \<Rightarrow> code_unit" where
  "ascii_lower c = (if 65 \<le> c \<and> c \<le> 90 then c + 32 else c)"

definition toLowerCase :: "(jsstring \<Rightarrow> jsstring) \<Rightarrow> jsstring \<Rightarrow> jsstring" where
  "toLowerCase unicode_lower s =
     (if list_all (\<lambda>c. c < 128) s then map ascii_lower s else unicode_lower s)"

definition outOfStockIndicators :: "jsstring list" where
  "outOfStockIndicators =
     [ascii ''out of stock'', ascii ''sold out'', ascii ''unavailable'',
      ascii ''no longer available'', ascii ''not available'', ascii ''out-of-stock'',
      ascii ''not in stock'', ascii ''backordered'']"

definition inStockIndicators :: "jsstring list" where
  "inStockIndicators =
     [ascii ''in stock'', ascii ''available'', ascii ''in-stock'', ascii ''ships'',
      ascii ''shipping'', ascii ''add to cart'', ascii ''buy now'', ascii ''ship'']"

fun any_included :: "jsstring \<Rightarrow> jsstring list \<Rightarrow> bool" where
  \<comment> \<open>the \<open>for\<close> loop over a list of indicators, left at the first one the text includes\<close>
  "any_included t [] = False"
| "any_included t (indicator # rest) =
     (if includes_js t indicator then True else any_included t rest)"

definition parseStockStatus :: "(jsstring \<Rightarrow> jsstring) \<Rightarrow> jsstring \<Rightarrow> bool" where
  "parseStockStatus unicode_lower text =
     (if text = [] then True
      else
        let lowercaseText = toLowerCase unicode_lower text
        in if any_included lowercaseText outOfStockIndicators then False
           else if any_included lowercaseText inStockIndicators then True
           else True)"

text \<open>
  \<open>stockLevelMatch\<close> is \<open>text.match(/(\d+)\s*(left|available|in stock|item)/i)\<close>: group 1.
  The words hold ASCII letters and a blank only; without the \<open>u\<close> flag, ignoring case
  never identifies a code unit outside ASCII with an ASCII letter, so a word matches
  exactly the strings that \<open>ascii_lower\<close> sends to it.
\<close>

definition stock_words :: "jsstring list" where
  "stock_words = [ascii ''left'', ascii ''available'', ascii ''in stock'', ascii ''item'']"

definition word_at :: "jsstring \<Rightarrow> jsstring \<Rightarrow> bool" where
  "word_at w s \<longleftrightarrow> map ascii_lower (take (length w) s) = w"

fun stockLevelMatch :: "jsstring \<Rightarrow> jsstring option" where
  "stockLevelMatch [] = None"
| "stockLevelMatch (c # s) =
     (let run = takeWhile is_digit (c # s);
          rest = dropWhile is_space (dropWhile is_digit (c # s))
      in if run \<noteq> [] \<and> list_ex (\<lambda>w. word_at w rest) stock_words then Some run
         else stockLevelMatch s)"

datatype stock_level = Undefined | Level jsnum | LOW

definition parseStockLevel :: "(jsstring \<Rightarrow> jsstring) \<Rightarrow> jsstring \<Rightarrow> stock_level" where
  "parseStockLevel unicode_lower text =
     (if text = [] then Undefined
      else
        let lowercaseText = toLowerCase unicode_lower text
        in case stockLevelMatch text of
             Some ds \<Rightarrow> Level (parseInt ds)
           | None \<Rightarrow>
               if includes_js lowercaseText (ascii ''low stock'') \<or>
                  includes_js lowercaseText (ascii ''selling fast'') then LOW
               else if includes_js lowercaseText (ascii ''out of stock'') \<or>
                  includes_js lowercaseText (ascii ''sold out'') then Level (Fin 0)
               else Undefined)"

section \<open>Descriptions\<close>

definition shortDescription :: "jsstring \<Rightarrow> jsstring" where
  \<comment> \<open>the product scraper, in both of its scraping paths\<close>
  "shortDescription description =
     (if 200 < length description then trim (take 200 description) @ ascii ''...''
      else description)"

definition item_description :: "jsstring \<Rightarrow> jsstring" where
  \<comment> \<open>the \<open>description\<close> of the main item of the example scraper. In the browser path an
      empty \<open>content\<close> is falsy; in the HTTP path it has been replaced by the same literal
      before the length is looked at.\<close>
  "item_description content =
     (if content \<noteq> []
      then (if 200 < length content then take 200 content @ ascii ''...'' else content)
      else ascii ''No Content Found'')"

section \<open>The price normalizer run on its own output\<close>

definition reparse :: "jsstring \<Rightarrow> jsstring option \<Rightarrow> price" where
  \<comment> \<open>\<open>parsePrice\<close> run again, with the same hint, on the formatted field of its result\<close>
  "reparse priceText currencySymbol =
     parsePrice (formatted (parsePrice priceText currencySymbol)) currencySymbol"

section \<open>The smaller and the larger of two numbers\<close>

text \<open>
  \<open>Math.min\<close> and \<open>Math.max\<close>, in which the specification words the discount pair; the
  source compares with \<open>>\<close> instead.
\<close>

definition Math_min :: "jsnum \<Rightarrow> jsnum \<Rightarrow> jsnum" where
  "Math_min x y = (if x = NaN \<or> y = NaN then NaN else if js_gt x y then y else x)"

definition Math_max :: "jsnum \<Rightarrow> jsnum \<Rightarrow> jsnum" where
  "Math_max x y = (if x = NaN \<or> y = NaN then NaN else if js_gt x y then x else y)"

section \<open>Evaluation on concrete inputs\<close>

lemmas char_class_defs =
  is_digit_def is_amount_unit_def is_currency_symbol_def is_space_def is_line_terminator_def

lemmas price_eval_defs =
  parsePrice_def current_price_def hasDiscount_def trim_def ascii_def amount_at_def
  parseFloat_def remove_commas_def digits_val_def digit_val_def getCurrencyCode_def
  currencyMap_def or_else_def discount_percentage_def js_sub_def Let_def

lemma fl_50: "fl 50 = Fin 50"
  by code_simp

lemma fl_25: "fl 25 = Fin 25"
  by code_simp

lemma fl_half: "fl (1 / 2) = Fin (1 / 2)"
  by code_simp

section \<open>What the price patterns need to match\<close>

lemma amount_at_None_iff: "amount_at s = None \<longleftrightarrow> (s = [] \<or> \<not> is_amount_unit (hd s))"
  by (cases s) (auto simp: amount_at_def Let_def split: list.splits)

lemma numericMatch_None_iff:
  "numericMatch s = None \<longleftrightarrow> (\<forall>c\<in>set s. \<not> is_amount_unit c)"
proof (induction s)
  case Nil
  show ?case by simp
next
  case (Cons c s)
  show ?case
  proof (cases "amount_at (c # s)")
    case None
    then have "\<not> is_amount_unit c" by (simp add: amount_at_None_iff)
    with None Cons show ?thesis by simp
  next
    case (Some r)
    then have "is_amount_unit c" using amount_at_None_iff [of "c # s"] by auto
    with Some show ?thesis by (cases r) simp
  qed
qed

lemma amount_at_Some_unit:
  assumes "amount_at s = Some r"
  shows "\<exists>x\<in>set s. is_amount_unit x"
proof -
  from assms have "s \<noteq> []" "is_amount_unit (hd s)"
    using amount_at_None_iff [of s] by auto
  then show ?thesis by (cases s) auto
qed

lemma token_at_Some_unit:
  assumes "token_at s = Some r"
  shows "\<exists>x\<in>set s. is_amount_unit x"
proof (cases s)
  case Nil
  with assms show ?thesis by simp
next
  case (Cons c s')
  with assms obtain r' where "amount_at (dropWhile is_space s') = Some r'"
    by (auto split: if_splits option.splits)
  then obtain x where "x \<in> set (dropWhile is_space s')" "is_amount_unit x"
    using amount_at_Some_unit by blast
  then have "x \<in> set s'" using set_dropWhileD by fast
  with \<open>is_amount_unit x\<close> Cons show ?thesis by auto
qed

lemma token_at_None_no_unit: "\<forall>c\<in>set s. \<not> is_amount_unit c \<Longrightarrow> token_at s = None"
  using token_at_Some_unit [of s] by (cases "token_at s") auto

lemma priceMatch_None_no_unit: "\<forall>c\<in>set s. \<not> is_amount_unit c \<Longrightarrow> priceMatch s = None"
proof (induction s)
  case Nil
  show ?case by simp
next
  case (Cons c s)
  then have "token_at (c # s) = None" by (intro token_at_None_no_unit)
  with Cons show ?case by simp
qed

lemma originalMatch_None_no_unit:
  "\<forall>c\<in>set s. \<not> is_amount_unit c \<Longrightarrow> originalMatch s = None"
proof (induction s)
  case Nil
  show ?case by simp
next
  case (Cons c s)
  then have "token_at (c # s) = None" by (intro token_at_None_no_unit)
  with Cons show ?case by simp
qed

lemma count_dropWhile_le: "length (filter P (dropWhile Q s)) \<le> length (filter P s)"
  by (induction s) auto

lemma count_trim_le: "length (filter P (trim s)) \<le> length (filter P s)"
proof -
  have "length (filter P (trim s)) =
        length (filter P (dropWhile is_space (rev (dropWhile is_space s))))"
    by (simp add: trim_def rev_filter [symmetric] del: rev_filter)
  also have "\<dots> \<le> length (filter P (rev (dropWhile is_space s)))"
    by (rule count_dropWhile_le)
  also have "\<dots> = length (filter P (dropWhile is_space s))"
    by (simp add: rev_filter [symmetric] del: rev_filter)
  also have "\<dots> \<le> length (filter P s)"
    by (rule count_dropWhile_le)
  finally show ?thesis .
qed

lemma js_gt_asym: "js_gt x y \<Longrightarrow> \<not> js_gt y x"
  by (cases x; cases y) auto

lemma js_gt_total: "x \<noteq> NaN \<Longrightarrow> y \<noteq> NaN \<Longrightarrow> \<not> js_gt x y \<Longrightarrow> js_gt y x \<or> y = x"
  by (cases x; cases y) auto

section \<open>Properties of the price normalizer\<close>

text \<open>
  Claim C1. A price text with more than one currency sign is to be read as a discount
  pair, two euro amounts included. The gate \<open>hasDiscount\<close> counts dollar signs only, while
  the pair pattern admits all five signs: on \<open>\<euro>50 \<euro>25\<close> the pair pattern would find both
  tokens, yet the normalizer reports no discount and no original amount, and the amount is
  the first token's, 50.
\<close>

theorem parsePrice_euro_pair_not_discounted:
  "discounted (parsePrice ([EURO] @ ascii ''50 '' @ [EURO] @ ascii ''25'') None) = False \<and>
   originalAmount (parsePrice ([EURO] @ ascii ''50 '' @ [EURO] @ ascii ''25'') None) = None \<and>
   amount (parsePrice ([EURO] @ ascii ''50 '' @ [EURO] @ ascii ''25'') None) = Fin 50 \<and>
   originalMatch ([EURO] @ ascii ''50 '' @ [EURO] @ ascii ''25'')
     = Some (EURO, ascii ''50'', EURO, ascii ''25'')"
  by (simp add: price_eval_defs char_class_defs fl_50)

text \<open>
  Claim C10. When no currency-sign token matches in the trimmed text (the empty text and
  the bare-number fallback included), the currency returned is the hint itself, or
  \<open>USD\<close> when the hint is absent or empty; the table \<open>getCurrencyCode\<close> is applied only
  to the sign of a token that was found. So the hint \<open>\<euro>\<close> comes back as it is, not as
  \<open>EUR\<close>.
\<close>

theorem parsePrice_currency_is_hint_without_symbol_token:
  "(priceMatch (trim text) = None \<longrightarrow>
      currency (parsePrice text hint) =
        (case hint of None \<Rightarrow> ascii ''USD'' | Some h \<Rightarrow> if h = [] then ascii ''USD'' else h)) \<and>
   (text \<noteq> [] \<longrightarrow> priceMatch (trim text) = Some (sg, a) \<longrightarrow>
      currency (parsePrice text hint) = getCurrencyCode sg) \<and>
   currency (parsePrice (ascii ''50'') (Some [EURO])) = [EURO] \<and>
   currency (parsePrice [] (Some [EURO])) = [EURO] \<and>
   getCurrencyCode EURO = ascii ''EUR''"
proof (intro conjI impI)
  assume "priceMatch (trim text) = None"
  then show "currency (parsePrice text hint) =
      (case hint of None \<Rightarrow> ascii ''USD'' | Some h \<Rightarrow> if h = [] then ascii ''USD'' else h)"
    by (simp add: parsePrice_def current_price_def or_else_def Let_def
        split: option.splits prod.splits)
next
  assume "text \<noteq> []" "priceMatch (trim text) = Some (sg, a)"
  then show "currency (parsePrice text hint) = getCurrencyCode sg"
    by (simp add: parsePrice_def current_price_def Let_def split: option.splits prod.splits)
next
  show "currency (parsePrice (ascii ''50'') (Some [EURO])) = [EURO]"
    by (simp add: price_eval_defs char_class_defs)
next
  show "currency (parsePrice [] (Some [EURO])) = [EURO]"
    by (simp add: parsePrice_def or_else_def)
next
  show "getCurrencyCode EURO = ascii ''EUR''"
    by (simp add: getCurrencyCode_def currencyMap_def)
qed

text \<open>
  The theorem at \<open>N/A\<close> with the hint \<open>EUR\<close>, where no token matches, and at \<open>$ 7\<close>
  with the same hint, where the dollar token decides.
\<close>

theorem parsePrice_currency_is_hint_witness:
  "priceMatch (trim (ascii ''N/A'')) = None \<and>
   currency (parsePrice (ascii ''N/A'') (Some (ascii ''EUR''))) = ascii ''EUR'' \<and>
   ascii ''$ 7'' \<noteq> [] \<and> priceMatch (trim (ascii ''$ 7'')) = Some (DOLLAR, ascii ''7'') \<and>
   currency (parsePrice (ascii ''$ 7'') (Some (ascii ''EUR''))) = ascii ''USD''"
proof -
  have n: "priceMatch (trim (ascii ''N/A'')) = None"
    by (simp add: price_eval_defs char_class_defs)
  have d: "priceMatch (trim (ascii ''$ 7'')) = Some (DOLLAR, ascii ''7'')"
    by (simp add: price_eval_defs char_class_defs)
  have e: "ascii ''$ 7'' \<noteq> []" by (simp add: ascii_def)
  from parsePrice_currency_is_hint_without_symbol_token
    [of "ascii ''N/A''" "Some (ascii ''EUR'')" DOLLAR "[]"] n
  have "currency (parsePrice (ascii ''N/A'') (Some (ascii ''EUR''))) = ascii ''EUR''"
    by (simp add: ascii_def)
  moreover from parsePrice_currency_is_hint_without_symbol_token
    [of "ascii ''$ 7''" "Some (ascii ''EUR'')" DOLLAR "ascii ''7''"] d e
  have "currency (parsePrice (ascii ''$ 7'') (Some (ascii ''EUR''))) = ascii ''USD''"
    by (simp add: getCurrencyCode_def currencyMap_def)
  ultimately show ?thesis using n d e by simp
qed

text \<open>
  Claim C9, as amended. \<open>parsePrice\<close> returns a record for every text. When the trimmed
  text holds no numeric token (no digit and no comma), the amount is 0, the formatted
  field is the trimmed text, or \<open>$0.00\<close> for the empty text, and the record is not
  discounted as long as the text holds at most one dollar sign.
\<close>

theorem parsePrice_no_numeric_token:
  assumes "numericMatch (trim text) = None"
  shows "amount (parsePrice text hint) = Fin 0 \<and>
         formatted (parsePrice text hint) = (if text = [] then ascii ''$0.00'' else trim text) \<and>
         (length (filter (\<lambda>c. c = DOLLAR) text) \<le> 1 \<longrightarrow> \<not> discounted (parsePrice text hint))"
proof -
  from assms have nu: "\<forall>c\<in>set (trim text). \<not> is_amount_unit c"
    by (simp add: numericMatch_None_iff)
  then have pm: "priceMatch (trim text) = None" and om: "originalMatch (trim text) = None"
    by (simp_all add: priceMatch_None_no_unit originalMatch_None_no_unit)
  have gate: "length (filter (\<lambda>c. c = DOLLAR) text) \<le> 1 \<Longrightarrow> \<not> hasDiscount (trim text)"
    using count_trim_le [of "\<lambda>c. c = DOLLAR" "text"] by (simp add: hasDiscount_def)
  show ?thesis
    using assms pm om gate
    by (auto simp add: parsePrice_def current_price_def Let_def)
qed

text \<open>The theorem at a text with blanks around it and one dollar sign.\<close>

theorem parsePrice_no_numeric_token_witness:
  "numericMatch (trim (ascii '' call us $ '')) = None \<and>
   amount (parsePrice (ascii '' call us $ '') None) = Fin 0 \<and>
   formatted (parsePrice (ascii '' call us $ '') None) = ascii ''call us $'' \<and>
   \<not> discounted (parsePrice (ascii '' call us $ '') None)"
proof -
  have n: "numericMatch (trim (ascii '' call us $ '')) = None"
    by (simp add: price_eval_defs char_class_defs)
  from parsePrice_no_numeric_token [OF n, of None] n show ?thesis
    by (simp add: trim_def ascii_def char_class_defs)
qed

text \<open>
  The claim as it was worded asks for the input text unchanged in the formatted field. A
  text with a leading blank comes back trimmed, and the empty text comes back as
  \<open>$0.00\<close>.
\<close>

theorem parsePrice_no_numeric_counterexample:
  "numericMatch (trim (ascii '' n/a'')) = None \<and>
   formatted (parsePrice (ascii '' n/a'') None) \<noteq> ascii '' n/a'' \<and>
   numericMatch (trim []) = None \<and>
   formatted (parsePrice [] None) \<noteq> []"
  by (simp add: price_eval_defs char_class_defs)

text \<open>
  Claim C5, as amended. In a record that is discounted and has an original amount, the
  amount is never greater than the original amount; when neither is NaN the original
  amount is greater than the amount or equal to it.
\<close>

theorem parsePrice_original_not_below_amount:
  assumes "discounted (parsePrice text hint)"
      and "originalAmount (parsePrice text hint) = Some orig"
  shows "\<not> js_gt (amount (parsePrice text hint)) orig \<and>
         (orig \<noteq> NaN \<longrightarrow> amount (parsePrice text hint) \<noteq> NaN \<longrightarrow>
            js_gt orig (amount (parsePrice text hint)) \<or> orig = amount (parsePrice text hint))"
  using assms
  by (auto simp add: parsePrice_def current_price_def Let_def
      split: if_splits option.splits prod.splits dest: js_gt_asym js_gt_total)

text \<open>The theorem at \<open>$25 $50\<close>, the cheaper token first.\<close>

theorem parsePrice_original_not_below_amount_witness:
  "discounted (parsePrice (ascii ''$25 $50'') None) \<and>
   originalAmount (parsePrice (ascii ''$25 $50'') None) = Some (Fin 50) \<and>
   amount (parsePrice (ascii ''$25 $50'') None) = Fin 25 \<and>
   \<not> js_gt (amount (parsePrice (ascii ''$25 $50'') None)) (Fin 50) \<and>
   js_gt (Fin 50) (amount (parsePrice (ascii ''$25 $50'') None))"
proof -
  have d: "discounted (parsePrice (ascii ''$25 $50'') None)"
    by (simp add: price_eval_defs char_class_defs)
  have orig: "originalAmount (parsePrice (ascii ''$25 $50'') None) = Some (Fin 50)"
    by (simp add: price_eval_defs char_class_defs fl_50 fl_25)
  have a: "amount (parsePrice (ascii ''$25 $50'') None) = Fin 25"
    by (simp add: price_eval_defs char_class_defs fl_50 fl_25)
  from parsePrice_original_not_below_amount [OF d orig] d orig a show ?thesis
    by simp
qed

text \<open>
  The strict inequality of the claim fails on two equal tokens: the record is discounted
  and both amounts are 50.
\<close>

theorem parsePrice_equal_pair_counterexample:
  "discounted (parsePrice (ascii ''$50 $50'') None) \<and>
   originalAmount (parsePrice (ascii ''$50 $50'') None) = Some (Fin 50) \<and>
   amount (parsePrice (ascii ''$50 $50'') None) = Fin 50 \<and>
   \<not> js_gt (Fin 50) (Fin 50)"
  by (simp add: price_eval_defs char_class_defs fl_50)

lemma Math_round_50: "Math_round (Fin 50) = Fin 50"
  by code_simp

text \<open>
  Claim C2, as amended. When the trimmed text holds more than one dollar sign and the
  pair pattern finds two tokens (the leftmost token and the last token after it on the
  same line) whose amounts read as the numbers \<open>v1\<close> and \<open>v2\<close>, the amount is the
  smaller and the original amount the larger of the two, in whichever order they stand;
  the discount percentage is \<open>round((max - min) / max * 100)\<close> when the larger is
  positive and is absent otherwise. The text \<open>$50 $25\<close> gives amount 25, original amount
  50, currency \<open>USD\<close> and 50 percent.
\<close>

theorem parsePrice_discount_pair:
  "(hasDiscount (trim text) \<and> originalMatch (trim text) = Some (s1, a1, s2, a2) \<and>
    parseFloat (remove_commas a1) = v1 \<and> parseFloat (remove_commas a2) = v2 \<and>
    v1 \<noteq> NaN \<and> v2 \<noteq> NaN \<longrightarrow>
      amount (parsePrice text hint) = Math_min v1 v2 \<and>
      originalAmount (parsePrice text hint) = Some (Math_max v1 v2) \<and>
      discounted (parsePrice text hint) \<and>
      discountPercentage (parsePrice text hint) =
        (if js_gt (Math_max v1 v2) (Fin 0)
         then Some (Math_round (js_mul (js_div (js_sub (Math_max v1 v2) (Math_min v1 v2))
                                               (Math_max v1 v2)) (Fin 100)))
         else None)) \<and>
   parsePrice (ascii ''$50 $25'') None =
     \<lparr>amount = Fin 25, currency = ascii ''USD'', formatted = ascii ''$25'',
      discounted = True, originalAmount = Some (Fin 50),
      originalFormatted = Some (ascii ''$50''), discountPercentage = Some (Fin 50)\<rparr>"
proof (intro conjI impI)
  assume h: "hasDiscount (trim text) \<and> originalMatch (trim text) = Some (s1, a1, s2, a2) \<and>
    parseFloat (remove_commas a1) = v1 \<and> parseFloat (remove_commas a2) = v2 \<and>
    v1 \<noteq> NaN \<and> v2 \<noteq> NaN"
  then have ne: "text \<noteq> []" by (auto simp: trim_def)
  show "amount (parsePrice text hint) = Math_min v1 v2"
    using h ne by (cases "js_gt v1 v2") (simp_all add: parsePrice_def Let_def Math_min_def)
  show "originalAmount (parsePrice text hint) = Some (Math_max v1 v2)"
    using h ne by (cases "js_gt v1 v2") (simp_all add: parsePrice_def Let_def Math_max_def)
  show "discounted (parsePrice text hint)"
    using h ne
    by (cases "js_gt v1 v2")
      (simp_all add: parsePrice_def current_price_def Let_def split: option.splits prod.splits)
  show "discountPercentage (parsePrice text hint) =
        (if js_gt (Math_max v1 v2) (Fin 0)
         then Some (Math_round (js_mul (js_div (js_sub (Math_max v1 v2) (Math_min v1 v2))
                                               (Math_max v1 v2)) (Fin 100)))
         else None)"
    using h ne
    by (cases "js_gt v1 v2")
      (simp_all add: parsePrice_def Let_def Math_min_def Math_max_def discount_percentage_def)
next
  show "parsePrice (ascii ''$50 $25'') None =
     \<lparr>amount = Fin 25, currency = ascii ''USD'', formatted = ascii ''$25'',
      discounted = True, originalAmount = Some (Fin 50),
      originalFormatted = Some (ascii ''$50''), discountPercentage = Some (Fin 50)\<rparr>"
    by (simp add: price_eval_defs char_class_defs fl_50 fl_25 fl_half Math_round_50
        del: Math_round.simps)
qed

text \<open>The theorem at \<open>$25 $50\<close>, the cheaper token first.\<close>

theorem parsePrice_discount_pair_witness:
  "hasDiscount (trim (ascii ''$25 $50'')) \<and>
   originalMatch (trim (ascii ''$25 $50'')) = Some (DOLLAR, ascii ''25'', DOLLAR, ascii ''50'') \<and>
   parseFloat (remove_commas (ascii ''25'')) = Fin 25 \<and>
   parseFloat (remove_commas (ascii ''50'')) = Fin 50 \<and>
   amount (parsePrice (ascii ''$25 $50'') None) = Fin 25 \<and>
   originalAmount (parsePrice (ascii ''$25 $50'') None) = Some (Fin 50) \<and>
   discountPercentage (parsePrice (ascii ''$25 $50'') None) = Some (Fin 50)"
proof -
  have g: "hasDiscount (trim (ascii ''$25 $50''))"
    by (simp add: price_eval_defs char_class_defs)
  have m: "originalMatch (trim (ascii ''$25 $50''))
             = Some (DOLLAR, ascii ''25'', DOLLAR, ascii ''50'')"
    by (simp add: price_eval_defs char_class_defs)
  have v1: "parseFloat (remove_commas (ascii ''25'')) = Fin 25"
    by (simp add: price_eval_defs char_class_defs fl_25)
  have v2: "parseFloat (remove_commas (ascii ''50'')) = Fin 50"
    by (simp add: price_eval_defs char_class_defs fl_50)
  from parsePrice_discount_pair
    [of "ascii ''$25 $50''" DOLLAR "ascii ''25''" DOLLAR "ascii ''50''" "Fin 25" "Fin 50" None]
    g m v1 v2
  show ?thesis
    by (simp add: Math_min_def Math_max_def js_sub_def fl_25 fl_half fl_50 Math_round_50
        del: Math_round.simps)
qed

text \<open>
  The formula of the claim has no value the normalizer returns when both tokens are 0:
  \<open>round((0 - 0) / 0 * 100)\<close> is NaN, and the guard \<open>originalAmount > 0\<close> leaves the
  percentage absent.
\<close>

theorem parsePrice_zero_pair_counterexample:
  "hasDiscount (trim (ascii ''$0 $0'')) \<and>
   originalMatch (trim (ascii ''$0 $0'')) = Some (DOLLAR, ascii ''0'', DOLLAR, ascii ''0'') \<and>
   parseFloat (remove_commas (ascii ''0'')) = Fin 0 \<and>
   discountPercentage (parsePrice (ascii ''$0 $0'') None) = None \<and>
   Math_round (js_mul (js_div (js_sub (Math_max (Fin 0) (Fin 0)) (Math_min (Fin 0) (Fin 0)))
                              (Math_max (Fin 0) (Fin 0))) (Fin 100)) = NaN"
  by (simp add: price_eval_defs char_class_defs Math_min_def Math_max_def fl_def)

section \<open>Re-reading a token\<close>

lemma amount_unit_not_space: "is_amount_unit c \<Longrightarrow> \<not> is_space c"
  by (auto simp: char_class_defs)

lemma currency_symbol_not_space: "is_currency_symbol c \<Longrightarrow> \<not> is_space c"
  by (auto simp: char_class_defs)

lemma amount_at_shape:
  assumes "amount_at s = Some (a, rest)"
  shows "a \<noteq> [] \<and> is_amount_unit (hd a) \<and> is_amount_unit (last a) \<and> DOLLAR \<notin> set a"
proof -
  let ?run = "takeWhile is_amount_unit s"
  from assms have run: "?run \<noteq> []"
    by (auto simp: amount_at_def Let_def split: if_splits)
  have all: "\<forall>c\<in>set ?run. is_amount_unit c"
    by (auto dest: set_takeWhileD)
  from run all have h: "is_amount_unit (hd ?run)" and l: "is_amount_unit (last ?run)"
    by simp_all
  have nd: "DOLLAR \<notin> set ?run"
    using all by (auto simp: char_class_defs)
  from assms run consider "a = ?run"
    | d1 d2 where "a = ?run @ [DOT, d1, d2]" "is_digit d1" "is_digit d2"
    by (auto simp: amount_at_def Let_def split: if_splits list.splits)
  then show ?thesis
  proof cases
    case 1
    with run h l nd show ?thesis by simp
  next
    case 2
    with run h nd show ?thesis
      by (auto simp: char_class_defs)
  qed
qed

lemma amount_at_canonical:
  assumes "amount_at s = Some (a, rest)"
  shows "amount_at a = Some (a, [])"
proof -
  let ?run = "takeWhile is_amount_unit s"
  from assms have run: "?run \<noteq> []"
    by (auto simp: amount_at_def Let_def split: if_splits)
  have all: "\<forall>c\<in>set ?run. is_amount_unit c"
    by (auto dest: set_takeWhileD)
  have tw: "takeWhile is_amount_unit ?run = ?run" by simp
  have dw: "dropWhile is_amount_unit ?run = []" using all by simp
  from assms run consider "a = ?run"
    | d1 d2 where "a = ?run @ [DOT, d1, d2]" "is_digit d1" "is_digit d2"
    by (auto simp: amount_at_def Let_def split: if_splits list.splits)
  then show ?thesis
  proof cases
    case 1
    with run show ?thesis by (simp add: amount_at_def Let_def tw dw)
  next
    case 2
    have nd: "\<not> is_amount_unit DOT" by (simp add: char_class_defs)
    from all nd have "takeWhile is_amount_unit (?run @ [DOT, d1, d2]) = ?run"
      by (simp add: takeWhile_append2)
    moreover from all nd have "dropWhile is_amount_unit (?run @ [DOT, d1, d2]) = [DOT, d1, d2]"
      by (simp add: dropWhile_append2)
    ultimately show ?thesis using 2 run by (simp add: amount_at_def Let_def)
  qed
qed

lemma trim_id:
  assumes "s \<noteq> []" "\<not> is_space (hd s)" "\<not> is_space (last s)"
  shows "trim s = s"
proof -
  from assms have a: "dropWhile is_space s = s" by (cases s) auto
  from assms have "rev s \<noteq> []" "\<not> is_space (hd (rev s))" by (simp_all add: hd_rev)
  then have "dropWhile is_space (rev s) = rev s" by (cases "rev s") auto
  with a show ?thesis by (simp add: trim_def)
qed

lemma last_dropWhile: "dropWhile P s \<noteq> [] \<Longrightarrow> last (dropWhile P s) = last s"
  by (induction s) (auto split: if_splits)

lemma trim_idem: "trim (trim s) = trim s"
proof (cases "trim s = []")
  case True
  have "trim [] = []" by (simp add: trim_def)
  with True show ?thesis by simp
next
  case False
  let ?d = "dropWhile is_space s"
  let ?e = "dropWhile is_space (rev ?d)"
  from False have e: "?e \<noteq> []" by (simp add: trim_def)
  have d: "?d \<noteq> []"
  proof
    assume z: "?d = []"
    have "?e = []" unfolding z by simp
    with e show False by contradiction
  qed
  have "last (trim s) = hd ?e" by (simp add: trim_def last_rev)
  with e have l: "\<not> is_space (last (trim s))" using hd_dropWhile [of is_space "rev ?d"] by simp
  have "hd (trim s) = last ?e" by (simp add: trim_def hd_rev)
  also from e have "\<dots> = last (rev ?d)" by (rule last_dropWhile)
  also have "\<dots> = hd ?d" using d by (simp add: last_rev)
  finally have h: "\<not> is_space (hd (trim s))" using d hd_dropWhile [of is_space s] by simp
  from False h l show ?thesis by (rule trim_id)
qed

lemma parsePrice_token:
  assumes c: "is_currency_symbol c" and a: "amount_at s = Some (a, rest)"
  shows "parsePrice (c # a) hint =
           \<lparr>amount = parseFloat (remove_commas a), currency = getCurrencyCode c,
            formatted = c # a, discounted = False, originalAmount = None,
            originalFormatted = None, discountPercentage = None\<rparr>"
proof -
  from amount_at_shape [OF a]
  have ne: "a \<noteq> []" and h: "is_amount_unit (hd a)" and l: "is_amount_unit (last a)"
    and nd: "DOLLAR \<notin> set a" by simp_all
  from ne l c have t: "trim (c # a) = c # a"
    by (intro trim_id) (simp_all add: amount_unit_not_space currency_symbol_not_space)
  from ne h have "dropWhile is_space a = a"
    by (cases a) (auto dest: amount_unit_not_space)
  with c amount_at_canonical [OF a] have pm: "priceMatch (c # a) = Some (c, a)" by simp
  from nd have "filter (\<lambda>x. x = DOLLAR) a = []" by (auto simp: filter_empty_conv)
  then have g: "\<not> hasDiscount (c # a)" by (simp add: hasDiscount_def)
  from t pm g show ?thesis by (simp add: parsePrice_def current_price_def)
qed

lemma priceMatch_token:
  "priceMatch s = Some (c, a) \<Longrightarrow> is_currency_symbol c \<and> (\<exists>s' r. amount_at s' = Some (a, r))"
  by (induction s) (auto split: option.splits if_splits prod.splits)

lemma numericMatch_token: "numericMatch s = Some a \<Longrightarrow> \<exists>s' r. amount_at s' = Some (a, r)"
  by (induction s) (auto split: option.splits prod.splits)

lemma second_token_token:
  "second_token s = Some (c, a) \<Longrightarrow> is_currency_symbol c \<and> (\<exists>s' r. amount_at s' = Some (a, r))"
  by (induction s) (auto split: option.splits if_splits prod.splits)

lemma originalMatch_token:
  "originalMatch s = Some (c1, a1, c2, a2) \<Longrightarrow>
     is_currency_symbol c1 \<and> (\<exists>s' r. amount_at s' = Some (a1, r)) \<and>
     is_currency_symbol c2 \<and> (\<exists>s' r. amount_at s' = Some (a2, r))"
proof (induction s)
  case Nil
  then show ?case by simp
next
  case (Cons c s)
  show ?case
  proof (cases "token_at (c # s)")
    case None
    with Cons show ?thesis by simp
  next
    case (Some t)
    obtain t1 ta tr where t: "t = (t1, ta, tr)" by (cases t)
    show ?thesis
    proof (cases "second_token tr")
      case None
      with Some t Cons show ?thesis by simp
    next
      case (Some u)
      obtain u1 ua where u: "u = (u1, ua)" by (cases u)
      from \<open>token_at (c # s) = Some t\<close> t
      have "is_currency_symbol t1 \<and> (\<exists>s' r. amount_at s' = Some (ta, r))"
        by (auto split: if_splits option.splits)
      moreover from Some u have "is_currency_symbol u1 \<and> (\<exists>s' r. amount_at s' = Some (ua, r))"
        using second_token_token by blast
      moreover from Cons.prems \<open>token_at (c # s) = Some t\<close> t Some u
      have "c1 = t1" "a1 = ta" "c2 = u1" "a2 = ua" by simp_all
      ultimately show ?thesis by simp
    qed
  qed
qed


lemma originalMatch_None_if_priceMatch_None: "priceMatch s = None \<Longrightarrow> originalMatch s = None"
  by (induction s) (auto split: option.splits prod.splits)

section \<open>The second run\<close>

lemma set_trim_subset: "set (trim s) \<subseteq> set s"
  by (auto simp: trim_def dest!: set_dropWhileD)

lemma trim_append_token:
  assumes "a \<noteq> []" "\<not> is_space (hd a)" "\<not> is_space (last a)"
  shows "trim (h @ a) = dropWhile is_space h @ a"
proof -
  have d: "dropWhile is_space (h @ a) = dropWhile is_space h @ a"
  proof (cases "\<forall>x\<in>set h. is_space x")
    case True
    then have "dropWhile is_space (h @ a) = dropWhile is_space a"
      by (simp add: dropWhile_append2)
    moreover from assms have "dropWhile is_space a = a" by (cases a) auto
    moreover from True have "dropWhile is_space h = []" by simp
    ultimately show ?thesis by simp
  next
    case False
    then obtain x where "x \<in> set h" "\<not> is_space x" by blast
    then show ?thesis by (simp add: dropWhile_append1)
  qed
  from assms have "rev a \<noteq> []" "\<not> is_space (hd (rev a))" by (simp_all add: hd_rev)
  then have "dropWhile is_space (rev a @ z) = rev a @ z" for z
    by (cases "rev a") auto
  with d show ?thesis by (simp add: trim_def)
qed

lemma amount_at_no_symbol:
  assumes "amount_at s = Some (a, rest)"
  shows "\<forall>c\<in>set a. \<not> is_currency_symbol c"
proof -
  let ?run = "takeWhile is_amount_unit s"
  have all: "\<forall>c\<in>set ?run. is_amount_unit c"
    by (auto dest: set_takeWhileD)
  from assms consider "a = ?run"
    | d1 d2 where "a = ?run @ [DOT, d1, d2]" "is_digit d1" "is_digit d2"
    by (auto simp: amount_at_def Let_def split: if_splits list.splits)
  then show ?thesis
    using all by cases (auto simp: char_class_defs)
qed

lemma priceMatch_None_no_symbol: "\<forall>c\<in>set s. \<not> is_currency_symbol c \<Longrightarrow> priceMatch s = None"
  by (induction s) auto

lemma priceMatch_symbol_mem: "priceMatch t = Some (s, a) \<Longrightarrow> s \<in> set t"
  by (induction t) (auto split: option.splits if_splits prod.splits)

lemma getCurrencyCode_inj:
  "is_currency_symbol x \<Longrightarrow> is_currency_symbol y \<Longrightarrow> getCurrencyCode x = getCurrencyCode y \<Longrightarrow> x = y"
  by (auto simp: is_currency_symbol_def getCurrencyCode_def currencyMap_def ascii_def)

lemma getCurrencyCode_no_symbol:
  "is_currency_symbol x \<Longrightarrow> \<forall>c\<in>set (getCurrencyCode x). \<not> is_currency_symbol c"
  by (auto simp: is_currency_symbol_def getCurrencyCode_def currencyMap_def ascii_def)

lemma currency_parsePrice:
  "currency (parsePrice t hint) =
     (case priceMatch (trim t) of
        None \<Rightarrow> or_else hint (ascii ''USD'')
      | Some (s, a) \<Rightarrow> if t = [] then or_else hint (ascii ''USD'') else getCurrencyCode s)"
  by (simp add: parsePrice_def current_price_def Let_def split: option.splits prod.splits)

text \<open>A prefix with no digit and no comma, in front of an amount.\<close>

lemma token_at_prefix:
  assumes p: "\<forall>x\<in>set p. \<not> is_amount_unit x" and a: "amount_at a = Some (a, [])"
    and h: "is_amount_unit (hd a)" and ne: "a \<noteq> []"
  shows "token_at (c # p @ a) = None \<or> token_at (c # p @ a) = Some (c, a, [])"
proof (cases "\<forall>x\<in>set p. is_space x")
  case True
  then have "dropWhile is_space (p @ a) = dropWhile is_space a"
    by (simp add: dropWhile_append2)
  moreover from h ne have "dropWhile is_space a = a"
    by (cases a) (auto dest: amount_unit_not_space)
  ultimately show ?thesis using a by simp
next
  case False
  then obtain x where x: "x \<in> set p" "\<not> is_space x" by blast
  then have d: "dropWhile is_space (p @ a) = dropWhile is_space p @ a"
    by (simp add: dropWhile_append1)
  from x have n: "dropWhile is_space p \<noteq> []" by (auto simp: dropWhile_eq_Nil_conv)
  then have "hd (dropWhile is_space p) \<in> set p"
    using hd_in_set set_dropWhileD by fast
  with p have "\<not> is_amount_unit (hd (dropWhile is_space p))" by blast
  with n have "\<not> is_amount_unit (hd (dropWhile is_space p @ a))" by simp
  then have "amount_at (dropWhile is_space (p @ a)) = None"
    unfolding d by (simp add: amount_at_None_iff)
  then show ?thesis by simp
qed

lemma numericMatch_prefix:
  assumes "\<forall>x\<in>set p. \<not> is_amount_unit x" and "amount_at a = Some (a, [])"
  shows "numericMatch (p @ a) = Some a"
  using assms
proof (induction p)
  case Nil
  then show ?case by (cases a) (auto simp: amount_at_def)
next
  case (Cons c p)
  then have "amount_at (c # p @ a) = None" by (simp add: amount_at_None_iff)
  with Cons show ?case by simp
qed

lemma priceMatch_prefix:
  assumes "\<forall>x\<in>set p. \<not> is_amount_unit x" and "amount_at a = Some (a, [])"
    and "is_amount_unit (hd a)" and "a \<noteq> []" and "\<forall>c\<in>set a. \<not> is_currency_symbol c"
  shows "priceMatch (p @ a) = None \<or> (\<exists>s. priceMatch (p @ a) = Some (s, a))"
  using assms
proof (induction p)
  case Nil
  then show ?case by (simp add: priceMatch_None_no_symbol)
next
  case (Cons c p)
  then have p: "\<forall>x\<in>set p. \<not> is_amount_unit x" by simp
  from token_at_prefix [OF p Cons.prems(2) Cons.prems(3) Cons.prems(4), of c]
  show ?case
  proof
    assume "token_at (c # p @ a) = None"
    with Cons p show ?thesis by simp
  next
    assume "token_at (c # p @ a) = Some (c, a, [])"
    then show ?thesis by simp
  qed
qed

lemma originalMatch_prefix:
  assumes "\<forall>x\<in>set p. \<not> is_amount_unit x" and "amount_at a = Some (a, [])"
    and "is_amount_unit (hd a)" and "a \<noteq> []" and "\<forall>c\<in>set a. \<not> is_currency_symbol c"
  shows "originalMatch (p @ a) = None"
  using assms
proof (induction p)
  case Nil
  then show ?case
    by (simp add: priceMatch_None_no_symbol originalMatch_None_if_priceMatch_None)
next
  case (Cons c p)
  then have p: "\<forall>x\<in>set p. \<not> is_amount_unit x" by simp
  from token_at_prefix [OF p Cons.prems(2) Cons.prems(3) Cons.prems(4), of c]
  show ?case
  proof
    assume "token_at (c # p @ a) = None"
    with Cons p show ?thesis by simp
  next
    assume "token_at (c # p @ a) = Some (c, a, [])"
    with Cons p show ?thesis by simp
  qed
qed

lemma parsePrice_hint_number:
  assumes am: "amount_at s = Some (a, rest)" and h: "\<forall>x\<in>set h. \<not> is_amount_unit x"
  shows "amount (parsePrice (h @ a) hint) = parseFloat (remove_commas a)"
proof -
  from amount_at_shape [OF am]
  have ne: "a \<noteq> []" and hu: "is_amount_unit (hd a)" and lu: "is_amount_unit (last a)"
    by simp_all
  note can = amount_at_canonical [OF am]
  note ns = amount_at_no_symbol [OF am]
  let ?p = "dropWhile is_space h"
  from ne hu lu have t: "trim (h @ a) = ?p @ a"
    by (intro trim_append_token) (simp_all add: amount_unit_not_space)
  from h have p: "\<forall>x\<in>set ?p. \<not> is_amount_unit x"
    by (auto dest: set_dropWhileD)
  note nm = numericMatch_prefix [OF p can]
  note om = originalMatch_prefix [OF p can hu ne ns]
  from priceMatch_prefix [OF p can hu ne ns] show ?thesis
  proof
    assume "priceMatch (?p @ a) = None"
    with ne t nm om show ?thesis
      by (simp add: parsePrice_def current_price_def Let_def)
  next
    assume "\<exists>s. priceMatch (?p @ a) = Some (s, a)"
    then obtain s where "priceMatch (?p @ a) = Some (s, a)" by blast
    with ne t om show ?thesis
      by (simp add: parsePrice_def current_price_def Let_def)
  qed
qed


lemma first_run_symbol:
  assumes ne: "text \<noteq> []" and pm: "priceMatch (trim text) = Some (sg, a)"
  shows "\<exists>s a' s' rest.
           is_currency_symbol s \<and> amount_at s' = Some (a', rest) \<and>
           formatted (parsePrice text hint) = s # a' \<and>
           amount (parsePrice text hint) = parseFloat (remove_commas a') \<and>
           (originalAmount (parsePrice text hint) = None \<longrightarrow> s = sg)"
proof -
  let ?ct = "trim text"
  from pm obtain s0 r0 where tok: "is_currency_symbol sg" "amount_at s0 = Some (a, r0)"
    using priceMatch_token by blast
  have plain: "parsePrice text hint = current_price ?ct hint \<Longrightarrow> ?thesis"
  proof -
    assume "parsePrice text hint = current_price ?ct hint"
    with pm have "formatted (parsePrice text hint) = sg # a"
      "amount (parsePrice text hint) = parseFloat (remove_commas a)"
      by (simp_all add: current_price_def)
    with tok have g: "is_currency_symbol sg \<and> amount_at s0 = Some (a, r0) \<and>
           formatted (parsePrice text hint) = sg # a \<and>
           amount (parsePrice text hint) = parseFloat (remove_commas a) \<and>
           (originalAmount (parsePrice text hint) = None \<longrightarrow> sg = sg)"
      by simp
    show ?thesis
      by (rule exI [of _ sg], rule exI [of _ a], rule exI [of _ s0], rule exI [of _ r0], rule g)
  qed
  show ?thesis
  proof (cases "originalMatch ?ct")
    case None
    with ne have "parsePrice text hint = current_price ?ct hint"
      by (simp add: parsePrice_def Let_def)
    then show ?thesis by (rule plain)
  next
    case (Some q)
    obtain c1 a1 c2 a2 where q: "q = (c1, a1, c2, a2)" by (cases q)
    from Some q obtain s1 r1 s2 r2 where
      t1: "is_currency_symbol c1" "amount_at s1 = Some (a1, r1)" and
      t2: "is_currency_symbol c2" "amount_at s2 = Some (a2, r2)"
      using originalMatch_token by blast
    show ?thesis
    proof (cases "hasDiscount ?ct")
      case False
      with ne have "parsePrice text hint = current_price ?ct hint"
        by (simp add: parsePrice_def Let_def)
      then show ?thesis by (rule plain)
    next
      case True
      show ?thesis
      proof (cases "js_gt (parseFloat (remove_commas a1)) (parseFloat (remove_commas a2))")
        case gt: True
        with ne Some q True have
          "formatted (parsePrice text hint) = c2 # a2"
          "amount (parsePrice text hint) = parseFloat (remove_commas a2)"
          "originalAmount (parsePrice text hint) \<noteq> None"
          by (simp_all add: parsePrice_def Let_def)
        with t2 have g: "is_currency_symbol c2 \<and> amount_at s2 = Some (a2, r2) \<and>
           formatted (parsePrice text hint) = c2 # a2 \<and>
           amount (parsePrice text hint) = parseFloat (remove_commas a2) \<and>
           (originalAmount (parsePrice text hint) = None \<longrightarrow> c2 = sg)"
          by auto
        show ?thesis
          by (rule exI [of _ c2], rule exI [of _ a2], rule exI [of _ s2], rule exI [of _ r2], rule g)
      next
        case ngt: False
        with ne Some q True have
          "formatted (parsePrice text hint) = c1 # a1"
          "amount (parsePrice text hint) = parseFloat (remove_commas a1)"
          "originalAmount (parsePrice text hint) \<noteq> None"
          by (simp_all add: parsePrice_def Let_def)
        with t1 have g: "is_currency_symbol c1 \<and> amount_at s1 = Some (a1, r1) \<and>
           formatted (parsePrice text hint) = c1 # a1 \<and>
           amount (parsePrice text hint) = parseFloat (remove_commas a1) \<and>
           (originalAmount (parsePrice text hint) = None \<longrightarrow> c1 = sg)"
          by auto
        show ?thesis
          by (rule exI [of _ c1], rule exI [of _ a1], rule exI [of _ s1], rule exI [of _ r1], rule g)
      qed
    qed
  qed
qed

lemma first_run_number:
  assumes ne: "text \<noteq> []" and pm: "priceMatch (trim text) = None"
    and nm: "numericMatch (trim text) = Some n"
  shows "parsePrice text hint =
     \<lparr>amount = parseFloat (remove_commas n), currency = or_else hint (ascii ''USD''),
      formatted = or_else hint (ascii ''$'') @ n, discounted = hasDiscount (trim text),
      originalAmount = None, originalFormatted = None, discountPercentage = None\<rparr>"
  using assms originalMatch_None_if_priceMatch_None [OF pm]
  by (simp add: parsePrice_def current_price_def Let_def)

lemma first_run_nothing:
  assumes ne: "text \<noteq> []" and nm: "numericMatch (trim text) = None"
  shows "parsePrice text hint =
     \<lparr>amount = Fin 0, currency = or_else hint (ascii ''USD''),
      formatted = trim text, discounted = hasDiscount (trim text),
      originalAmount = None, originalFormatted = None, discountPercentage = None\<rparr>"
proof -
  from nm have "\<forall>c\<in>set (trim text). \<not> is_amount_unit c"
    by (simp add: numericMatch_None_iff)
  then have "priceMatch (trim text) = None" "originalMatch (trim text) = None"
    by (simp_all add: priceMatch_None_no_unit originalMatch_None_no_unit)
  with ne nm show ?thesis
    by (simp add: parsePrice_def current_price_def Let_def)
qed

lemma reparse_nothing:
  assumes ne: "text \<noteq> []" and nm: "numericMatch (trim text) = None"
  shows "amount (reparse text hint) = amount (parsePrice text hint) \<and>
         currency (reparse text hint) = currency (parsePrice text hint)"
proof (cases "trim text = []")
  case True
  with first_run_nothing [OF ne nm, of hint] show ?thesis
    by (simp add: reparse_def parsePrice_def)
next
  case False
  from nm have "numericMatch (trim (trim text)) = None" by (simp add: trim_idem)
  from first_run_nothing [OF False this, of hint] first_run_nothing [OF ne nm, of hint]
  show ?thesis by (simp add: reparse_def trim_idem)
qed

lemma reparse_symbol:
  assumes ne: "text \<noteq> []" and pm: "priceMatch (trim text) = Some (sg, a)"
  shows "amount (reparse text hint) = amount (parsePrice text hint) \<and>
         (currency (reparse text hint) = currency (parsePrice text hint)
            \<longleftrightarrow> hd (formatted (parsePrice text hint)) = sg) \<and>
         (originalAmount (parsePrice text hint) = None \<longrightarrow>
            currency (reparse text hint) = currency (parsePrice text hint))"
proof -
  from first_run_symbol [OF ne pm, of hint] obtain s a' s' rest where
    s: "is_currency_symbol s" and am: "amount_at s' = Some (a', rest)" and
    f: "formatted (parsePrice text hint) = s # a'" and
    a: "amount (parsePrice text hint) = parseFloat (remove_commas a')" and
    o: "originalAmount (parsePrice text hint) = None \<longrightarrow> s = sg"
    by (elim exE conjE)
  from pm have sg: "is_currency_symbol sg" using priceMatch_token by blast
  from ne pm have c: "currency (parsePrice text hint) = getCurrencyCode sg"
    by (simp add: currency_parsePrice)
  have r: "reparse text hint = parsePrice (s # a') hint"
    by (simp add: reparse_def f)
  note tk = parsePrice_token [OF s am, of hint]
  have "getCurrencyCode s = getCurrencyCode sg \<longleftrightarrow> s = sg"
    using getCurrencyCode_inj [OF s sg] by blast
  with r tk a c f o show ?thesis by simp
qed

lemma reparse_number_no_hint:
  assumes ne: "text \<noteq> []" and pm: "priceMatch (trim text) = None"
    and nm: "numericMatch (trim text) = Some n" and h: "hint = None \<or> hint = Some []"
  shows "amount (reparse text hint) = amount (parsePrice text hint) \<and>
         currency (reparse text hint) = currency (parsePrice text hint)"
proof -
  from nm obtain s' r' where am: "amount_at s' = Some (n, r')"
    using numericMatch_token by blast
  have d: "is_currency_symbol DOLLAR" by (simp add: is_currency_symbol_def)
  from h have "or_else hint (ascii ''$'') = [DOLLAR]" "or_else hint (ascii ''USD'') = ascii ''USD''"
    by (auto simp: or_else_def ascii_def)
  with first_run_number [OF ne pm nm, of hint] parsePrice_token [OF d am, of hint]
  show ?thesis
    by (simp add: reparse_def getCurrencyCode_def currencyMap_def)
qed

lemma reparse_number_hint:
  assumes ne: "text \<noteq> []" and pm: "priceMatch (trim text) = None"
    and nm: "numericMatch (trim text) = Some n" and h: "hint = Some h" "h \<noteq> []"
  shows "(currency (reparse text hint) = currency (parsePrice text hint)
            \<longleftrightarrow> priceMatch (trim (h @ n)) = None) \<and>
         ((\<forall>c\<in>set h. \<not> is_amount_unit c) \<longrightarrow>
            amount (reparse text hint) = amount (parsePrice text hint)) \<and>
         (amount (reparse text hint) = amount (parsePrice text hint)
            \<longleftrightarrow> amount (parsePrice (h @ n) hint) = parseFloat (remove_commas n))"
proof -
  from nm obtain s' r' where am: "amount_at s' = Some (n, r')"
    using numericMatch_token by blast
  from h have oe: "or_else hint (ascii ''$'') = h" "or_else hint (ascii ''USD'') = h"
    by (simp_all add: or_else_def)
  note fr = first_run_number [OF ne pm nm, of hint]
  from fr oe have r: "reparse text hint = parsePrice (h @ n) hint"
    and c: "currency (parsePrice text hint) = h"
    and a: "amount (parsePrice text hint) = parseFloat (remove_commas n)"
    by (simp_all add: reparse_def)
  have cur: "currency (reparse text hint) = h \<longleftrightarrow> priceMatch (trim (h @ n)) = None"
  proof (cases "priceMatch (trim (h @ n))")
    case None
    with r oe h show ?thesis by (simp add: currency_parsePrice)
  next
    case (Some q)
    obtain s b where q: "q = (s, b)" by (cases q)
    from Some q h r have cs: "currency (reparse text hint) = getCurrencyCode s"
      by (simp add: currency_parsePrice)
    from Some q have sy: "is_currency_symbol s" using priceMatch_token by blast
    from Some q have "s \<in> set (trim (h @ n))" using priceMatch_symbol_mem by blast
    then have "s \<in> set h \<union> set n" using set_trim_subset [of "h @ n"] by auto
    moreover from amount_at_no_symbol [OF am] sy have "s \<notin> set n" by blast
    ultimately have "s \<in> set h" by blast
    with sy getCurrencyCode_no_symbol [OF sy] have "h \<noteq> getCurrencyCode s" by blast
    with cs Some show ?thesis by auto
  qed
  from r a parsePrice_hint_number [OF am, of h hint] cur c show ?thesis by simp
qed

lemma fl_150: "fl 150 = Fin 150"
  by code_simp

text \<open>
  Claim C8, as amended. \<open>reparse\<close> is the normalizer run again, with the same hint, on
  the formatted field of its own result.

  It gives the same amount whenever the hint holds no digit and no comma (an absent hint
  included), and also whenever the trimmed text holds a currency-sign token or no numeric
  token at all. In the case that is left, a bare number with a hint in front of it, the
  amount is the same exactly when the hint followed by the number reads as the number.

  It gives the same currency in exactly these cases. For the empty text: when the hint is
  absent, empty or \<open>USD\<close>. When the trimmed text holds a currency-sign token: when the
  token kept in the formatted field carries the sign of the first token of the text, which
  is always so when no discount pair was extracted. For a bare number: when the hint is
  absent or empty, and otherwise exactly when the hint followed by the number holds no
  currency-sign token. With no numeric token: always.
\<close>

theorem parsePrice_reparse_formatted:
  "(((case hint of None \<Rightarrow> True | Some h \<Rightarrow> \<forall>c\<in>set h. \<not> is_amount_unit c) \<or>
     priceMatch (trim text) \<noteq> None \<or> numericMatch (trim text) = None) \<longrightarrow>
      amount (reparse text hint) = amount (parsePrice text hint)) \<and>
   (text = [] \<longrightarrow>
      (currency (reparse text hint) = currency (parsePrice text hint)
         \<longleftrightarrow> or_else hint (ascii ''USD'') = ascii ''USD'')) \<and>
   (text \<noteq> [] \<and> priceMatch (trim text) = Some (sg, a) \<longrightarrow>
      (currency (reparse text hint) = currency (parsePrice text hint)
         \<longleftrightarrow> hd (formatted (parsePrice text hint)) = sg) \<and>
      (originalAmount (parsePrice text hint) = None \<longrightarrow>
         currency (reparse text hint) = currency (parsePrice text hint))) \<and>
   (text \<noteq> [] \<and> priceMatch (trim text) = None \<and> numericMatch (trim text) = Some n \<longrightarrow>
      ((hint = None \<or> hint = Some []) \<longrightarrow>
         currency (reparse text hint) = currency (parsePrice text hint)) \<and>
      (hint = Some h \<and> h \<noteq> [] \<longrightarrow>
         (currency (reparse text hint) = currency (parsePrice text hint)
            \<longleftrightarrow> priceMatch (trim (h @ n)) = None) \<and>
         (amount (reparse text hint) = amount (parsePrice text hint)
            \<longleftrightarrow> amount (parsePrice (h @ n) hint) = parseFloat (remove_commas n)))) \<and>
   (text \<noteq> [] \<and> numericMatch (trim text) = None \<longrightarrow>
      currency (reparse text hint) = currency (parsePrice text hint))"
proof (intro conjI impI)
  assume h: "(case hint of None \<Rightarrow> True | Some h \<Rightarrow> \<forall>c\<in>set h. \<not> is_amount_unit c) \<or>
     priceMatch (trim text) \<noteq> None \<or> numericMatch (trim text) = None"
  show "amount (reparse text hint) = amount (parsePrice text hint)"
  proof (cases "text = []")
    case True
    then show ?thesis
      by (simp add: reparse_def price_eval_defs char_class_defs fl_def)
  next
    case False
    show ?thesis
    proof (cases "priceMatch (trim text)")
      case (Some q)
      obtain s b where "q = (s, b)" by (cases q)
      with Some reparse_symbol [OF False, of s b hint] show ?thesis by simp
    next
      case None
      show ?thesis
      proof (cases "numericMatch (trim text)")
        case nn: None
        with reparse_nothing [OF False, of hint] show ?thesis by simp
      next
        case (Some m)
        with None h have hc: "case hint of None \<Rightarrow> True | Some h \<Rightarrow> \<forall>c\<in>set h. \<not> is_amount_unit c"
          by simp
        show ?thesis
        proof (cases "hint = None \<or> hint = Some []")
          case True
          with reparse_number_no_hint [OF False None Some] show ?thesis by simp
        next
          case nf: False
          then obtain k where k: "hint = Some k" "k \<noteq> []" by (cases hint) auto
          with hc have "\<forall>c\<in>set k. \<not> is_amount_unit c" by simp
          with reparse_number_hint [OF False None Some k] show ?thesis by simp
        qed
      qed
    qed
  qed
next
  assume "text = []"
  then show "currency (reparse text hint) = currency (parsePrice text hint)
         \<longleftrightarrow> or_else hint (ascii ''USD'') = ascii ''USD''"
    by (simp add: reparse_def price_eval_defs char_class_defs) auto
next
  assume "text \<noteq> [] \<and> priceMatch (trim text) = Some (sg, a)"
  then show "currency (reparse text hint) = currency (parsePrice text hint)
         \<longleftrightarrow> hd (formatted (parsePrice text hint)) = sg"
    using reparse_symbol [of "text" sg a hint] by simp
next
  assume "text \<noteq> [] \<and> priceMatch (trim text) = Some (sg, a)"
    and "originalAmount (parsePrice text hint) = None"
  then show "currency (reparse text hint) = currency (parsePrice text hint)"
    using reparse_symbol [of "text" sg a hint] by simp
next
  assume "text \<noteq> [] \<and> priceMatch (trim text) = None \<and> numericMatch (trim text) = Some n"
    and "hint = None \<or> hint = Some []"
  then show "currency (reparse text hint) = currency (parsePrice text hint)"
    using reparse_number_no_hint [of "text" n hint] by simp
next
  assume "text \<noteq> [] \<and> priceMatch (trim text) = None \<and> numericMatch (trim text) = Some n"
    and "hint = Some h \<and> h \<noteq> []"
  then show "currency (reparse text hint) = currency (parsePrice text hint)
            \<longleftrightarrow> priceMatch (trim (h @ n)) = None"
    using reparse_number_hint [of "text" n hint h] by simp
next
  assume "text \<noteq> [] \<and> priceMatch (trim text) = None \<and> numericMatch (trim text) = Some n"
    and "hint = Some h \<and> h \<noteq> []"
  then show "amount (reparse text hint) = amount (parsePrice text hint)
            \<longleftrightarrow> amount (parsePrice (h @ n) hint) = parseFloat (remove_commas n)"
    using reparse_number_hint [of "text" n hint h] by simp
next
  assume "text \<noteq> [] \<and> numericMatch (trim text) = None"
  then show "currency (reparse text hint) = currency (parsePrice text hint)"
    using reparse_nothing [of "text" hint] by simp
qed


text \<open>
  The theorem at the bare number 50 with the hints \<open>USD\<close> and \<open>\<euro>\<close>, at the pair
  \<open>$50 $25\<close> with no hint, at \<open>n/a\<close> with the hint \<open>\<euro>\<close>, and at the empty text with the
  hint \<open>USD\<close>.
\<close>

theorem parsePrice_reparse_formatted_witness:
  "amount (reparse (ascii ''50'') (Some (ascii ''USD''))) = Fin 50 \<and>
   currency (reparse (ascii ''50'') (Some (ascii ''USD''))) = ascii ''USD'' \<and>
   amount (reparse (ascii ''50'') (Some [EURO])) = Fin 50 \<and>
   amount (reparse (ascii ''$50 $25'') None) = Fin 25 \<and>
   currency (reparse (ascii ''$50 $25'') None) = ascii ''USD'' \<and>
   amount (reparse (ascii ''n/a'') (Some [EURO])) = Fin 0 \<and>
   currency (reparse (ascii ''n/a'') (Some [EURO])) = [EURO] \<and>
   currency (reparse [] (Some (ascii ''USD''))) = ascii ''USD''"
proof -
  have n50: "ascii ''50'' \<noteq> [] \<and> priceMatch (trim (ascii ''50'')) = None \<and>
             numericMatch (trim (ascii ''50'')) = Some (ascii ''50'')"
    by (simp add: price_eval_defs char_class_defs)
  have usd: "Some (ascii ''USD'') = Some (ascii ''USD'') \<and> ascii ''USD'' \<noteq> []"
    by (simp add: ascii_def)
  have usd_clean: "case Some (ascii ''USD'') of None \<Rightarrow> True
              | Some h \<Rightarrow> \<forall>c\<in>set h. \<not> is_amount_unit c"
    by (simp add: ascii_def char_class_defs)
  have usd_50: "priceMatch (trim (ascii ''USD'' @ ascii ''50'')) = None"
    by (simp add: price_eval_defs char_class_defs)
  have r1: "amount (parsePrice (ascii ''50'') (Some (ascii ''USD''))) = Fin 50 \<and>
            currency (parsePrice (ascii ''50'') (Some (ascii ''USD''))) = ascii ''USD''"
    by (simp add: price_eval_defs char_class_defs fl_50)
  note t1 = parsePrice_reparse_formatted
    [of "Some (ascii ''USD'')" "ascii ''50''" DOLLAR "[]" "ascii ''50''" "ascii ''USD''"]
  from t1 usd_clean
  have a1: "amount (reparse (ascii ''50'') (Some (ascii ''USD'')))
              = amount (parsePrice (ascii ''50'') (Some (ascii ''USD'')))"
    by blast
  from t1 n50 usd usd_50
  have c1: "currency (reparse (ascii ''50'') (Some (ascii ''USD'')))
              = currency (parsePrice (ascii ''50'') (Some (ascii ''USD'')))"
    by blast
  have eur: "case Some [EURO] of None \<Rightarrow> True | Some h \<Rightarrow> \<forall>c\<in>set h. \<not> is_amount_unit c"
    by (simp add: char_class_defs)
  have r2: "amount (parsePrice (ascii ''50'') (Some [EURO])) = Fin 50"
    by (simp add: price_eval_defs char_class_defs fl_50)
  note t2 = parsePrice_reparse_formatted
    [of "Some [EURO]" "ascii ''50''" DOLLAR "[]" "ascii ''50''" "[EURO]"]
  from t2 eur
  have a2: "amount (reparse (ascii ''50'') (Some [EURO]))
              = amount (parsePrice (ascii ''50'') (Some [EURO]))"
    by blast
  have pair: "ascii ''$50 $25'' \<noteq> [] \<and>
              priceMatch (trim (ascii ''$50 $25'')) = Some (DOLLAR, ascii ''50'')"
    by (simp add: price_eval_defs char_class_defs)
  have pair_hd: "hd (formatted (parsePrice (ascii ''$50 $25'') None)) = DOLLAR"
    by (simp add: price_eval_defs char_class_defs fl_50 fl_25)
  have pn: "priceMatch (trim (ascii ''$50 $25'')) \<noteq> None"
    using pair by simp
  have r3: "amount (parsePrice (ascii ''$50 $25'') None) = Fin 25 \<and>
            currency (parsePrice (ascii ''$50 $25'') None) = ascii ''USD''"
    by (simp add: price_eval_defs char_class_defs fl_50 fl_25)
  note t3 = parsePrice_reparse_formatted
    [of None "ascii ''$50 $25''" DOLLAR "ascii ''50''" "[]" "[]"]
  from t3 pn
  have a3: "amount (reparse (ascii ''$50 $25'') None)
              = amount (parsePrice (ascii ''$50 $25'') None)"
    by blast
  from t3 pair pair_hd
  have c3: "currency (reparse (ascii ''$50 $25'') None)
              = currency (parsePrice (ascii ''$50 $25'') None)"
    by blast
  have na: "ascii ''n/a'' \<noteq> [] \<and> numericMatch (trim (ascii ''n/a'')) = None"
    by (simp add: price_eval_defs char_class_defs)
  have r4: "amount (parsePrice (ascii ''n/a'') (Some [EURO])) = Fin 0 \<and>
            currency (parsePrice (ascii ''n/a'') (Some [EURO])) = [EURO]"
    by (simp add: price_eval_defs char_class_defs)
  note t4 = parsePrice_reparse_formatted
    [of "Some [EURO]" "ascii ''n/a''" DOLLAR "[]" "[]" "[]"]
  from t4 na
  have a4: "amount (reparse (ascii ''n/a'') (Some [EURO]))
              = amount (parsePrice (ascii ''n/a'') (Some [EURO]))"
    by simp
  from t4 na
  have c4: "currency (reparse (ascii ''n/a'') (Some [EURO]))
              = currency (parsePrice (ascii ''n/a'') (Some [EURO]))"
    by blast
  have e: "or_else (Some (ascii ''USD'')) (ascii ''USD'') = ascii ''USD''"
    by (simp add: or_else_def ascii_def)
  have r5: "currency (parsePrice [] (Some (ascii ''USD''))) = ascii ''USD''"
    by (simp add: price_eval_defs)
  note t5 = parsePrice_reparse_formatted [of "Some (ascii ''USD'')" "[]" DOLLAR "[]" "[]" "[]"]
  from t5 e
  have c5: "currency (reparse [] (Some (ascii ''USD'')))
              = currency (parsePrice [] (Some (ascii ''USD'')))"
    by blast
  from a1 c1 r1 a2 r2 a3 c3 r3 a4 c4 r4 c5 r5 show ?thesis
    by (simp only:) 
qed

text \<open>
  With the hint \<open>\<euro>\<close> the bare number 50 is formatted as \<open>\<euro>50\<close> and its currency is the
  hint; read again, the euro token is found and the currency is \<open>EUR\<close>, the amount still
  50. With a hint that holds a digit the amount changes too: the hint \<open>1\<close> formats 50 as
  150.
\<close>

theorem parsePrice_reparse_hint_counterexample:
  "currency (parsePrice (ascii ''50'') (Some [EURO])) = [EURO] \<and>
   formatted (parsePrice (ascii ''50'') (Some [EURO])) = EURO # ascii ''50'' \<and>
   currency (reparse (ascii ''50'') (Some [EURO])) = ascii ''EUR'' \<and>
   ascii ''EUR'' \<noteq> [EURO] \<and>
   amount (parsePrice (ascii ''50'') (Some (ascii ''1''))) = Fin 50 \<and>
   formatted (parsePrice (ascii ''50'') (Some (ascii ''1''))) = ascii ''150'' \<and>
   amount (reparse (ascii ''50'') (Some (ascii ''1''))) = Fin 150"
  by (simp add: reparse_def price_eval_defs char_class_defs fl_50 fl_150)

section \<open>Properties of the rating normalizer\<close>

lemmas rating_eval_defs =
  parseRating_def dot_digit_at_def is_digit_0_5_def count_unit_def parseFloat_def parseInt_def
  digits_val_def digit_val_def ascii_def js_of_nat_def Let_def

lemma fl_19_2: "fl (19 / 2) = Fin (19 / 2)"
  by code_simp

lemma fl_15_2: "fl (15 / 2) = Fin (15 / 2)"
  by code_simp

lemma fl_5: "fl 5 = Fin 5"
  by code_simp

lemma three_of_five_stars: "js_mul (js_div (fl 3) (fl 5)) (Fin 5) = Fin 3"
  by code_simp

lemma percent_96: "js_div (Math_round (js_mul (js_div (fl 96) (Fin 20)) (Fin 100))) (Fin 100)
   = fl (24 / 5)"
  by code_simp

lemma fl_9_2: "fl (9 / 2) = Fin (9 / 2)"
  by code_simp

lemma two_of_four_stars: "js_mul (js_div (fl 2) (fl 4)) (Fin 5) = Fin (5 / 2)"
  by code_simp

text \<open>
  Claim C3. The rating is to lie between 0 and 5, as the comment on \<open>parseRating\<close> says
  too. The first alternative of the numeric pattern admits any leading digit, so the text
  \<open>9.5\<close> is returned as 9.5.
\<close>

theorem parseRating_above_five:
  "parseRating (ascii ''9.5'') = Fin (19 / 2) \<and> js_gt (parseRating (ascii ''9.5'')) (Fin 5)"
  by (simp add: rating_eval_defs char_class_defs fl_19_2)

text \<open>
  Claim C4. The numeric rule of \<open>parseRating\<close> is to return a literal matching
  \<open>/[0-5](\.[0-9])?/\<close>. The first alternative of the pattern in the source admits any
  leading digit: in \<open>7.5\<close> the pattern of the claim finds the literal 5, while the
  normalizer matches \<open>7.5\<close> and returns 7.5, above the 5 that its own comment promises.
\<close>

theorem parseRating_decimal_beyond_claimed_literal:
  "spec_ratingMatch (ascii ''7.5'') = Some (ascii ''5'') \<and>
   parseFloat (ascii ''5'') = Fin 5 \<and>
   ratingMatch (ascii ''7.5'') = Some (ascii ''7.5'') \<and>
   parseRating (ascii ''7.5'') = Fin (15 / 2) \<and>
   js_gt (parseRating (ascii ''7.5'')) (Fin 5)"
  by (simp add: rating_eval_defs char_class_defs fl_15_2 fl_5)

lemma ratingMatch_spec:
  "ratingMatch s = Some m \<Longrightarrow> is_digit_0_5 (hd m) \<Longrightarrow> spec_ratingMatch s = Some m"
proof (induction s)
  case Nil
  then show ?case by simp
next
  case (Cons c s)
  have d: "is_digit_0_5 c \<Longrightarrow> is_digit c"
    by (simp add: is_digit_0_5_def is_digit_def)
  show ?case
  proof (cases "is_digit_0_5 c")
    case True
    with Cons.prems d show ?thesis by (simp split: if_splits)
  next
    case False
    show ?thesis
    proof (cases "is_digit c \<and> dot_digit_at s")
      case True
      with Cons.prems have "m = c # take 2 s" by simp
      with Cons.prems False show ?thesis by simp
    next
      case nd: False
      with False Cons show ?thesis by (simp split: if_splits)
    qed
  qed
qed

text \<open>
  Away from such a decimal the rules of \<open>parseRating\<close> are the ones the specification
  lists, in its order. When the leftmost match of the numeric pattern starts with a digit
  from 0 to 5, it is also the leftmost match of \<open>/[0-5](\.[0-9])?/\<close> and is returned as
  that number. When the numeric pattern finds nothing and a filled or an empty marker is
  present, the result is \<open>filled / (filled + empty) * 5\<close>; three filled stars followed by
  two empty ones give exactly 3. When neither applies and there is a percentage token
  \<open>N%\<close>, the result is \<open>round(N / 20 * 100) / 100\<close>. Otherwise it is 0.
\<close>

lemma parseRating_priority:
  "(ratingMatch text = Some m \<and> is_digit_0_5 (hd m) \<longrightarrow>
      spec_ratingMatch text = Some m \<and> parseRating text = parseFloat m) \<and>
   (ratingMatch text = None \<and>
    (0 < count_unit STAR_FULL text + count_unit ASTERISK text \<or>
     0 < count_unit STAR_EMPTY text + count_unit HYPHEN text) \<longrightarrow>
      parseRating text =
        js_mul (js_div (js_of_nat (count_unit STAR_FULL text + count_unit ASTERISK text))
                       (js_of_nat (count_unit STAR_FULL text + count_unit ASTERISK text +
                                   (count_unit STAR_EMPTY text + count_unit HYPHEN text))))
               (Fin 5)) \<and>
   (ratingMatch text = None \<and>
    count_unit STAR_FULL text + count_unit ASTERISK text = 0 \<and>
    count_unit STAR_EMPTY text + count_unit HYPHEN text = 0 \<and>
    percentMatch text = Some ds \<longrightarrow>
      parseRating text =
        js_div (Math_round (js_mul (js_div (parseInt ds) (Fin 20)) (Fin 100))) (Fin 100)) \<and>
   (ratingMatch text = None \<and>
    count_unit STAR_FULL text + count_unit ASTERISK text = 0 \<and>
    count_unit STAR_EMPTY text + count_unit HYPHEN text = 0 \<and>
    percentMatch text = None \<longrightarrow> parseRating text = Fin 0) \<and>
   parseRating [STAR_FULL, STAR_FULL, STAR_FULL, STAR_EMPTY, STAR_EMPTY] = Fin 3"
proof (intro conjI impI)
  assume "ratingMatch text = Some m \<and> is_digit_0_5 (hd m)"
  then show "spec_ratingMatch text = Some m" by (simp add: ratingMatch_spec)
next
  assume "ratingMatch text = Some m \<and> is_digit_0_5 (hd m)"
  then show "parseRating text = parseFloat m" by (simp add: parseRating_def)
next
  assume "ratingMatch text = None \<and>
    (0 < count_unit STAR_FULL text + count_unit ASTERISK text \<or>
     0 < count_unit STAR_EMPTY text + count_unit HYPHEN text)"
  then show "parseRating text =
        js_mul (js_div (js_of_nat (count_unit STAR_FULL text + count_unit ASTERISK text))
                       (js_of_nat (count_unit STAR_FULL text + count_unit ASTERISK text +
                                   (count_unit STAR_EMPTY text + count_unit HYPHEN text))))
               (Fin 5)"
    by (auto simp add: parseRating_def Let_def)
next
  assume "ratingMatch text = None \<and>
    count_unit STAR_FULL text + count_unit ASTERISK text = 0 \<and>
    count_unit STAR_EMPTY text + count_unit HYPHEN text = 0 \<and>
    percentMatch text = Some ds"
  then show "parseRating text =
        js_div (Math_round (js_mul (js_div (parseInt ds) (Fin 20)) (Fin 100))) (Fin 100)"
    by (simp add: parseRating_def Let_def)
next
  assume "ratingMatch text = None \<and>
    count_unit STAR_FULL text + count_unit ASTERISK text = 0 \<and>
    count_unit STAR_EMPTY text + count_unit HYPHEN text = 0 \<and>
    percentMatch text = None"
  then show "parseRating text = Fin 0"
    by (simp add: parseRating_def Let_def)
next
  let ?s = "[STAR_FULL, STAR_FULL, STAR_FULL, STAR_EMPTY, STAR_EMPTY]"
  have m: "ratingMatch ?s = None"
    by (simp add: dot_digit_at_def is_digit_0_5_def is_digit_def)
  have f: "count_unit STAR_FULL ?s + count_unit ASTERISK ?s = 3"
    by (simp add: count_unit_def)
  have e: "count_unit STAR_EMPTY ?s + count_unit HYPHEN ?s = 2"
    by (simp add: count_unit_def)
  from m f e show "parseRating ?s = Fin 3"
    by (simp add: parseRating_def js_of_nat_def three_of_five_stars del: js_mul.simps js_div.simps)
qed

text \<open>One text for each of the four rules.\<close>

lemma parseRating_priority_examples:
  "ratingMatch (ascii ''Rated 4.5 of 5'') = Some (ascii ''4.5'') \<and>
   spec_ratingMatch (ascii ''Rated 4.5 of 5'') = Some (ascii ''4.5'') \<and>
   parseRating (ascii ''Rated 4.5 of 5'') = Fin (9 / 2) \<and>
   parseRating (ascii ''**--'') = Fin (5 / 2) \<and>
   parseRating (ascii ''96%'') = fl (24 / 5) \<and>
   parseRating (ascii ''none'') = Fin 0"
proof -
  have a: "ratingMatch (ascii ''Rated 4.5 of 5'') = Some (ascii ''4.5'') \<and>
           is_digit_0_5 (hd (ascii ''4.5''))"
    by (simp add: rating_eval_defs char_class_defs)
  have pf: "parseFloat (ascii ''4.5'') = Fin (9 / 2)"
    by (simp add: rating_eval_defs char_class_defs fl_9_2)
  have b: "ratingMatch (ascii ''**--'') = None \<and>
       (0 < count_unit STAR_FULL (ascii ''**--'') + count_unit ASTERISK (ascii ''**--'') \<or>
        0 < count_unit STAR_EMPTY (ascii ''**--'') + count_unit HYPHEN (ascii ''**--''))"
    by (simp add: rating_eval_defs char_class_defs)
  have bf: "count_unit STAR_FULL (ascii ''**--'') + count_unit ASTERISK (ascii ''**--'') = 2"
    by (simp add: rating_eval_defs)
  have be: "count_unit STAR_EMPTY (ascii ''**--'') + count_unit HYPHEN (ascii ''**--'') = 2"
    by (simp add: rating_eval_defs)
  have c: "ratingMatch (ascii ''96%'') = None \<and>
       count_unit STAR_FULL (ascii ''96%'') + count_unit ASTERISK (ascii ''96%'') = 0 \<and>
       count_unit STAR_EMPTY (ascii ''96%'') + count_unit HYPHEN (ascii ''96%'') = 0 \<and>
       percentMatch (ascii ''96%'') = Some (ascii ''96'')"
    by (simp add: rating_eval_defs char_class_defs)
  have pi: "parseInt (ascii ''96'') = fl 96"
    by (simp add: rating_eval_defs char_class_defs)
  have d: "ratingMatch (ascii ''none'') = None \<and>
       count_unit STAR_FULL (ascii ''none'') + count_unit ASTERISK (ascii ''none'') = 0 \<and>
       count_unit STAR_EMPTY (ascii ''none'') + count_unit HYPHEN (ascii ''none'') = 0 \<and>
       percentMatch (ascii ''none'') = None"
    by (simp add: rating_eval_defs char_class_defs)
  from a pf parseRating_priority [of "ascii ''Rated 4.5 of 5''" "ascii ''4.5''" "[]"]
  have 1: "spec_ratingMatch (ascii ''Rated 4.5 of 5'') = Some (ascii ''4.5'') \<and>
           parseRating (ascii ''Rated 4.5 of 5'') = Fin (9 / 2)"
    by simp
  from b bf be parseRating_priority [of "ascii ''**--''" "[]" "[]"]
  have 2: "parseRating (ascii ''**--'') = Fin (5 / 2)"
    by (simp add: js_of_nat_def two_of_four_stars del: js_mul.simps js_div.simps)
  from c pi parseRating_priority [of "ascii ''96%''" "[]" "ascii ''96''"]
  have 3: "parseRating (ascii ''96%'') = fl (24 / 5)"
    by (simp add: percent_96 del: js_mul.simps js_div.simps Math_round.simps)
  from d parseRating_priority [of "ascii ''none''" "[]" "[]"]
  have 4: "parseRating (ascii ''none'') = Fin 0"
    by simp
  from a 1 2 3 4 show ?thesis by simp
qed

section \<open>Properties of the stock normalizer\<close>

lemmas stock_eval_defs =
  parseStockStatus_def parseStockLevel_def toLowerCase_def ascii_lower_def includes_js_def
  outOfStockIndicators_def inStockIndicators_def stock_words_def word_at_def ascii_def
  parseInt_def Let_def

lemma includes_js_iff: "includes_js s p \<longleftrightarrow> (\<exists>pre suf. s = pre @ p @ suf)"
proof
  assume "includes_js s p"
  then obtain k where k: "take (length p) (drop k s) = p"
    by (auto simp: includes_js_def list_ex_iff)
  have "drop k s = p @ drop (length p) (drop k s)"
    by (metis k append_take_drop_id)
  then have "s = take k s @ p @ drop (length p) (drop k s)"
    by (metis append_take_drop_id)
  then show "\<exists>pre suf. s = pre @ p @ suf" by blast
next
  assume "\<exists>pre suf. s = pre @ p @ suf"
  then obtain pre suf where s: "s = pre @ p @ suf" by blast
  then have "length pre \<in> set [0 ..< Suc (length s)]" by simp
  moreover from s have "take (length p) (drop (length pre) s) = p" by simp
  ultimately show "includes_js s p"
    unfolding includes_js_def list_ex_iff by blast
qed

lemma any_included_iff: "any_included t ps \<longleftrightarrow> (\<exists>p\<in>set ps. includes_js t p)"
  by (induction ps) auto

text \<open>
  Claim C7. \<open>parseStockStatus\<close> is false exactly when the lower-cased text holds one of
  the out-of-stock phrases as a substring, whatever in-stock phrase it holds besides; in
  every other case, an in-stock phrase or none, it is true. \<open>Sold Out\<close> is out of stock
  and its stock level is 0; \<open>Currently UNAVAILABLE\<close> holds the in-stock phrase
  \<open>available\<close> and is out of stock all the same.
\<close>

theorem parseStockStatus_out_of_stock_first:
  "parseStockStatus unicode_lower text =
     (\<not> (\<exists>p\<in>set outOfStockIndicators. \<exists>pre suf. toLowerCase unicode_lower text = pre @ p @ suf)) \<and>
   parseStockStatus unicode_lower (ascii ''Sold Out'') = False \<and>
   parseStockLevel unicode_lower (ascii ''Sold Out'') = Level (Fin 0) \<and>
   ascii ''available'' \<in> set inStockIndicators \<and>
   parseStockStatus unicode_lower (ascii ''Currently UNAVAILABLE'') = False"
proof (intro conjI)
  have e: "toLowerCase unicode_lower [] = []" by (simp add: toLowerCase_def)
  have n: "\<not> any_included [] outOfStockIndicators"
    by (simp add: outOfStockIndicators_def includes_js_def ascii_def)
  show "parseStockStatus unicode_lower text =
     (\<not> (\<exists>p\<in>set outOfStockIndicators. \<exists>pre suf. toLowerCase unicode_lower text = pre @ p @ suf))"
  proof (cases "text = []")
    case True
    with e n show ?thesis
      by (simp add: parseStockStatus_def any_included_iff includes_js_iff)
  next
    case False
    then show ?thesis
      by (simp add: parseStockStatus_def Let_def any_included_iff includes_js_iff)
  qed
next
  show "parseStockStatus unicode_lower (ascii ''Sold Out'') = False"
    by (simp add: stock_eval_defs)
next
  show "parseStockLevel unicode_lower (ascii ''Sold Out'') = Level (Fin 0)"
    by (simp add: stock_eval_defs char_class_defs)
next
  show "ascii ''available'' \<in> set inStockIndicators"
    by (simp add: inStockIndicators_def)
next
  show "parseStockStatus unicode_lower (ascii ''Currently UNAVAILABLE'') = False"
    by (simp add: stock_eval_defs)
qed

text \<open>
  The theorem at a text with an in-stock phrase, at one with no phrase and at one with an
  out-of-stock phrase, the lower-casing outside ASCII being the identity.
\<close>

theorem parseStockStatus_witness:
  "parseStockStatus id (ascii ''In Stock'') = True \<and>
   parseStockStatus id (ascii ''Ask us'') = True \<and>
   parseStockStatus id (ascii ''NOT IN STOCK'') = False"
proof -
  have a: "toLowerCase id (ascii ''In Stock'') = ascii ''in stock''"
    by (simp add: stock_eval_defs)
  have b: "toLowerCase id (ascii ''Ask us'') = ascii ''ask us''"
    by (simp add: stock_eval_defs)
  have c: "toLowerCase id (ascii ''NOT IN STOCK'') = [] @ ascii ''not in stock'' @ []"
    by (simp add: stock_eval_defs)
  have na: "\<not> any_included (ascii ''in stock'') outOfStockIndicators"
    by (simp add: stock_eval_defs)
  have nb: "\<not> any_included (ascii ''ask us'') outOfStockIndicators"
    by (simp add: stock_eval_defs)
  have m: "ascii ''not in stock'' \<in> set outOfStockIndicators"
    by (simp add: outOfStockIndicators_def)
  from parseStockStatus_out_of_stock_first [of id "ascii ''In Stock''"] a na
  have 1: "parseStockStatus id (ascii ''In Stock'') = True"
    by (simp add: any_included_iff includes_js_iff)
  from parseStockStatus_out_of_stock_first [of id "ascii ''Ask us''"] b nb
  have 2: "parseStockStatus id (ascii ''Ask us'') = True"
    by (simp add: any_included_iff includes_js_iff)
  from parseStockStatus_out_of_stock_first [of id "ascii ''NOT IN STOCK''"] c m
  have 3: "parseStockStatus id (ascii ''NOT IN STOCK'') = False"
    by blast
  from 1 2 3 show ?thesis by simp
qed

section \<open>Properties of the descriptions\<close>

lemma length_trim_le: "length (trim s) \<le> length s"
proof -
  have "length (trim s) = length (dropWhile is_space (rev (dropWhile is_space s)))"
    by (simp add: trim_def)
  also have "\<dots> \<le> length (rev (dropWhile is_space s))"
    by (rule length_dropWhile_le)
  also have "\<dots> \<le> length s"
    by (simp add: length_dropWhile_le)
  finally show ?thesis .
qed

text \<open>
  Claim C6, as amended. For a description longer than 200 code units the example scraper
  stores its first 200 code units followed by \<open>...\<close>, 203 in all. The product scraper
  trims those 200 code units before it appends \<open>...\<close>: its short description is at most
  203 long, and is the 200 code units followed by \<open>...\<close> when the first and the 200th
  are not blank. A description of at most 200 code units is stored unchanged (by the
  example scraper when it is not empty).
\<close>

theorem description_truncated:
  "(200 < length d \<longrightarrow>
      shortDescription d = trim (take 200 d) @ ascii ''...'' \<and>
      length (shortDescription d) \<le> 203 \<and>
      (\<not> is_space (hd d) \<and> \<not> is_space (d ! 199) \<longrightarrow>
         shortDescription d = take 200 d @ ascii ''...'' \<and> length (shortDescription d) = 203)) \<and>
   (length d \<le> 200 \<longrightarrow> shortDescription d = d) \<and>
   (200 < length d \<longrightarrow>
      item_description d = take 200 d @ ascii ''...'' \<and> length (item_description d) = 203) \<and>
   (length d \<le> 200 \<longrightarrow> d \<noteq> [] \<longrightarrow> item_description d = d)"
proof (intro conjI impI)
  assume l: "200 < length d"
  show "shortDescription d = trim (take 200 d) @ ascii ''...''"
    using l by (simp add: shortDescription_def)
  have "length (trim (take 200 d)) \<le> 200"
    using length_trim_le [of "take 200 d"] by simp
  then show "length (shortDescription d) \<le> 203"
    using l by (simp add: shortDescription_def ascii_def)
  show "item_description d = take 200 d @ ascii ''...''"
    using l by (auto simp: item_description_def)
  show "length (item_description d) = 203"
    using l by (auto simp: item_description_def ascii_def)
next
  assume l: "200 < length d" and s: "\<not> is_space (hd d) \<and> \<not> is_space (d ! 199)"
  from l have ne: "take 200 d \<noteq> []" by auto
  from l have h: "hd (take 200 d) = hd d" by (cases d) auto
  from l ne have la: "last (take 200 d) = d ! 199"
    by (simp add: last_conv_nth)
  from ne h la s have t: "trim (take 200 d) = take 200 d"
    by (intro trim_id) simp_all
  show "shortDescription d = take 200 d @ ascii ''...''"
    using l t by (simp add: shortDescription_def)
  show "length (shortDescription d) = 203"
    using l t by (simp add: shortDescription_def ascii_def)
next
  assume "length d \<le> 200"
  then show "shortDescription d = d" by (simp add: shortDescription_def)
next
  assume "length d \<le> 200" "d \<noteq> []"
  then show "item_description d = d" by (simp add: item_description_def)
qed

text \<open>The theorem at a description of 201 letters and at a short one.\<close>

theorem description_truncated_witness:
  "length (replicate 201 (97::nat)) = 201 \<and>
   shortDescription (replicate 201 97) = replicate 200 97 @ ascii ''...'' \<and>
   length (shortDescription (replicate 201 97)) = 203 \<and>
   item_description (replicate 201 97) = replicate 200 97 @ ascii ''...'' \<and>
   shortDescription (ascii ''short'') = ascii ''short'' \<and>
   item_description (ascii ''short'') = ascii ''short''"
proof -
  have l: "200 < length (replicate 201 (97::nat))" by simp
  have s: "\<not> is_space (hd (replicate 201 (97::nat))) \<and> \<not> is_space (replicate 201 (97::nat) ! 199)"
    by (simp add: is_space_def hd_replicate)
  have k: "length (ascii ''short'') \<le> 200 \<and> ascii ''short'' \<noteq> []"
    by (simp add: ascii_def)
  have t: "take 200 (replicate 201 (97::nat)) = replicate 200 97" by simp
  from description_truncated [of "replicate 201 97"] l s
  have "shortDescription (replicate 201 97) = take 200 (replicate 201 97) @ ascii ''...'' \<and>
        length (shortDescription (replicate 201 97)) = 203 \<and>
        item_description (replicate 201 97) = take 200 (replicate 201 97) @ ascii ''...''"
    by blast
  then
  have 1: "shortDescription (replicate 201 97) = replicate 200 97 @ ascii ''...'' \<and>
           length (shortDescription (replicate 201 97)) = 203 \<and>
           item_description (replicate 201 97) = replicate 200 97 @ ascii ''...''"
    unfolding t .
  from description_truncated [of "ascii ''short''"] k
  have 2: "shortDescription (ascii ''short'') = ascii ''short'' \<and>
           item_description (ascii ''short'') = ascii ''short''"
    by blast
  have 0: "length (replicate 201 (97::nat)) = 201" by simp
  from 0 1 2 show ?thesis by blast
qed

text \<open>
  A description of 201 code units whose 200th is a blank: the short description of the
  product scraper is 202 long.
\<close>

theorem shortDescription_trimmed_counterexample:
  "length (replicate 199 (97::nat) @ [32, 98]) = 201 \<and>
   take 200 (replicate 199 (97::nat) @ [32, 98]) = replicate 199 97 @ [32] \<and>
   shortDescription (replicate 199 97 @ [32, 98]) = replicate 199 97 @ ascii ''...'' \<and>
   length (shortDescription (replicate 199 97 @ [32, 98])) = 202"
proof -
  have t: "take 200 (replicate 199 (97::nat) @ [32, 98]) = replicate 199 97 @ [32]" by simp
  have n: "\<not> is_space 97" and b: "is_space 32" by (simp_all add: is_space_def)
  have r: "replicate 199 (97::nat) \<noteq> []" by simp
  from n r have d1: "dropWhile is_space (replicate 199 (97::nat) @ [32]) = replicate 199 97 @ [32]"
    by (simp add: dropWhile_append1 dropWhile_replicate)
  have "rev (replicate 199 (97::nat) @ [32]) = 32 # replicate 199 97" by simp
  with n b have d2: "dropWhile is_space (rev (replicate 199 (97::nat) @ [32])) = replicate 199 97"
    by (simp add: dropWhile_replicate)
  from d1 d2 have "trim (replicate 199 (97::nat) @ [32]) = replicate 199 97"
    by (simp add: trim_def)
  with t show ?thesis by (simp add: shortDescription_def ascii_def)
qed

end
